theory Spec2Isabelle
  imports Complex_Main
begin

section \<open>Python values used by \<open>main.py\<close>\<close>

text \<open>
  A Python \<open>str\<close> is a sequence of Unicode code points, and \<open>ord\<close> of a character may
  be any number up to \<open>0x10FFFF\<close>.  The message typed by the user is therefore a list of
  code points.  Text the program itself produces (glyph rows, error messages, the progress
  bar) only holds ASCII characters and is kept as a HOL \<open>string\<close>.
\<close>

type_synonym pystr = "nat list"

text \<open>The exceptions that a run can raise.  An \<open>OSError\<close> comes from starting a program:
  \<open>FileNotFoundError\<close> when no such program is on the search path.\<close>

datatype os_error = FileNotFoundError | PermissionError | OtherOSError

datatype py_error =
    IndexError | OverflowError | ValueError | UnboundLocalError | OSError os_error

text \<open>\<open>xs[i]\<close>: a negative index counts from the end, anything else out of range raises.\<close>

definition py_index :: "'a list \<Rightarrow> int \<Rightarrow> py_error + 'a" where
  "py_index xs i =
     (if 0 \<le> i \<and> i < int (length xs) then Inr (xs ! nat i)
      else if i < 0 \<and> - int (length xs) \<le> i then Inr (xs ! nat (i + int (length xs)))
      else Inl IndexError)"

text \<open>\<open>str(n)\<close> and \<open>f"{n}"\<close> for an integer.\<close>

definition digit_char :: "nat \<Rightarrow> char" where
  "digit_char d = ''0123456789'' ! d"

fun str_nat :: "nat \<Rightarrow> string" where
  "str_nat n = (if n < 10 then [digit_char n] else str_nat (n div 10) @ [digit_char (n mod 10)])"

declare str_nat.simps [simp del]

definition str_int :: "int \<Rightarrow> string" where
  "str_int i = (if i < 0 then ''-'' @ str_nat (nat (- i)) else str_nat (nat i))"

text \<open>\<open>"{:02X}".format(n)\<close>: upper-case hexadecimal, padded with zeros to a width of
  at least two.\<close>

definition hex_char :: "nat \<Rightarrow> char" where
  "hex_char d = ''0123456789ABCDEF'' ! d"

fun hex_nat :: "nat \<Rightarrow> string" where
  "hex_nat n = (if n < 16 then [hex_char n] else hex_nat (n div 16) @ [hex_char (n mod 16)])"

declare hex_nat.simps [simp del]

definition format_02X :: "nat \<Rightarrow> string" where
  "format_02X n = (let s = hex_nat n in replicate (2 - length s) CHR ''0'' @ s)"

text \<open>\<open>sep.join(xs)\<close>.\<close>

fun join :: "'a list \<Rightarrow> 'a list list \<Rightarrow> 'a list" where
  "join sep [] = []"
| "join sep [x] = x"
| "join sep (x # y # ys) = x @ sep @ join sep (y # ys)"

text \<open>\<open>s.split()\<close> and \<open>s.strip()\<close> with no argument work on runs of whitespace.\<close>

definition isspace :: "char \<Rightarrow> bool" where
  "isspace c = (of_char c \<in> set [9, 10, 11, 12, 13, 28, 29, 30, 31, 32, 133, 160 :: nat])"

fun split_from :: "string \<Rightarrow> string \<Rightarrow> string list" where
  "split_from w [] = (if w = [] then [] else [w])"
| "split_from w (c # cs) =
     (if isspace c then (if w = [] then split_from [] cs else w # split_from [] cs)
      else split_from (w @ [c]) cs)"

definition split :: "string \<Rightarrow> string list" where
  "split s = split_from [] s"

definition strip :: "string \<Rightarrow> string" where
  "strip s = rev (dropWhile isspace (rev (dropWhile isspace s)))"

subsection \<open>\<open>datetime\<close>\<close>

text \<open>
  A \<open>datetime\<close> is its date, held as the proleptic Gregorian ordinal that \<open>toordinal()\<close>
  returns (day 1 is 0001-01-01, a Monday; the last day, 9999-12-31, is 3652059), its time
  of day and its \<open>tzinfo\<close> (the offset from UTC, \<open>None\<close> for a naive value).
\<close>

record datetime =
  ordinal :: int
  hour :: nat
  minute :: nat
  second :: nat
  microsecond :: nat
  tzinfo :: "int option"

definition MAXORDINAL :: int where
  "MAXORDINAL = 3652059"

text \<open>\<open>dt + timedelta(days=k)\<close> keeps the time of day and raises \<open>OverflowError\<close> when
  the date leaves the years 1 to 9999.  \<open>dt - timedelta(days=k)\<close> is
  \<open>dt + timedelta(days=-k)\<close>.\<close>

definition add_days :: "datetime \<Rightarrow> int \<Rightarrow> py_error + datetime" where
  "add_days dt k =
     (let d = ordinal dt + k
      in if 0 < d \<and> d \<le> MAXORDINAL then Inr (dt\<lparr>ordinal := d\<rparr>) else Inl OverflowError)"

text \<open>\<open>dt.weekday()\<close>: Monday is 0 and Sunday is 6.\<close>

definition weekday :: "datetime \<Rightarrow> int" where
  "weekday dt = (ordinal dt + 6) mod 7"

subsection \<open>\<open>random\<close>\<close>

text \<open>
  The generator is a sequence of raw draws, the \<open>k\<close>-th being used by the \<open>k\<close>-th call.
  \<open>random.randrange(n)\<close> raises \<open>ValueError\<close> for \<open>n \<le> 0\<close> and otherwise returns a
  number of \<open>range(n)\<close>; every sequence of such results is given by some sequence of raw
  draws.
\<close>

definition randrange :: "(nat \<Rightarrow> nat) \<Rightarrow> nat \<Rightarrow> int \<Rightarrow> py_error + int" where
  "randrange rng k n = (if n \<le> 0 then Inl ValueError else Inr (int (rng k) mod n))"

subsection \<open>\<open>subprocess\<close>\<close>

text \<open>
  \<open>subprocess.run(["git", ...])\<close> starts \<open>git\<close> and waits for it.  When the program can be
  started the call returns, whatever \<open>git\<close> does and whatever its exit status is.  When it
  cannot, the call raises an \<open>OSError\<close>: \<open>FileNotFoundError\<close> with no \<open>git\<close> on the search
  path.  A launcher says what the calls of a run do, the \<open>c\<close>-th call returning for \<open>None\<close>
  and raising the error otherwise.
\<close>

type_synonym launcher = "nat \<Rightarrow> os_error option"

section \<open>The program\<close>

definition ASCII_PRINTABLE_FIRST :: int where
  "ASCII_PRINTABLE_FIRST = 32"

definition ASCII_PRINTABLE_LAST :: int where
  "ASCII_PRINTABLE_LAST = 126"

definition ESC :: char where
  "ESC = CHR 0x1B"

subsection \<open>\<open>get_font\<close>\<close>

text \<open>The 95 triple-quoted literals of \<open>get_font\<close>, with their line breaks and
  indentation.\<close>

definition font :: "string list" where
  "font =
   [''\<newline>        ..\<newline>        ..\<newline>        ..\<newline>        ..\<newline>        ..\<newline>        ..\<newline>        ..\<newline>        '',
    ''\<newline>        .\<newline>        #\<newline>        #\<newline>        #\<newline>        .\<newline>        #\<newline>        .\<newline>        '',
    ''\<newline>        ...\<newline>        #.#\<newline>        #.#\<newline>        ...\<newline>        ...\<newline>        ...\<newline>        ...\<newline>        '',
    ''\<newline>        .....\<newline>        .#.#.\<newline>        #####\<newline>        .#.#.\<newline>        #####\<newline>        .#.#.\<newline>        .....\<newline>        '',
    ''\<newline>        ..#..\<newline>        .####\<newline>        #.#..\<newline>        .###.\<newline>        ..#.#\<newline>        ####.\<newline>        ..#..\<newline>        '',
    ''\<newline>        .....\<newline>        ##..#\<newline>        ##.#.\<newline>        ..#..\<newline>        .#.##\<newline>        #..##\<newline>        .....\<newline>        '',
    ''\<newline>        .##..\<newline>        #..#.\<newline>        .#...\<newline>        .##..\<newline>        #.#.#\<newline>        #..##\<newline>        .##.#\<newline>        '',
    ''\<newline>        .\<newline>        #\<newline>        #\<newline>        .\<newline>        .\<newline>        .\<newline>        .\<newline>        '',
    ''\<newline>\<newline>        .#\<newline>        #.\<newline>        #.\<newline>        #.\<newline>        #.\<newline>        #.\<newline>        .#\<newline>        '',
    ''\<newline>\<newline>        #.\<newline>        .#\<newline>        .#\<newline>        .#\<newline>        .#\<newline>        .#\<newline>        #.\<newline>        '',
    ''\<newline>        ...\<newline>        .#.\<newline>        ###\<newline>        .#.\<newline>        ...\<newline>        ...\<newline>        ...\<newline>        '',
    ''\<newline>        ...\<newline>        ...\<newline>        .#.\<newline>        ###\<newline>        .#.\<newline>        ...\<newline>        ...\<newline>        '',
    ''\<newline>        .\<newline>        .\<newline>        .\<newline>        .\<newline>        .\<newline>        #\<newline>        #\<newline>        '',
    ''\<newline>        ...\<newline>        ...\<newline>        ...\<newline>        ###\<newline>        ...\<newline>        ...\<newline>        ...\<newline>        '',
    ''\<newline>        .\<newline>        .\<newline>        .\<newline>        .\<newline>        .\<newline>        #\<newline>        .\<newline>        '',
    ''\<newline>        .....\<newline>        ....#\<newline>        ...#.\<newline>        ..#..\<newline>        .#...\<newline>        #....\<newline>        .....\<newline>        '',
    ''\<newline>        ....\<newline>        .##.\<newline>        #..#\<newline>        #..#\<newline>        #..#\<newline>        .##.\<newline>        ....\<newline>        '',
    ''\<newline>        ...\<newline>        .#.\<newline>        ##.\<newline>        .#.\<newline>        .#.\<newline>        ###\<newline>        ...\<newline>        '',
    ''\<newline>        ....\<newline>        .##.\<newline>        #..#\<newline>        ..#.\<newline>        #...\<newline>        ####\<newline>        ....\<newline>        '',
    ''\<newline>        ....\<newline>        ###.\<newline>        ...#\<newline>        .##.\<newline>        ...#\<newline>        ###.\<newline>        ....\<newline>        '',
    ''\<newline>        ....\<newline>        ..#.\<newline>        .##.\<newline>        #.#.\<newline>        ####\<newline>        ..#.\<newline>        ....\<newline>        '',
    ''\<newline>        ....\<newline>        ####\<newline>        #...\<newline>        ###.\<newline>        ...#\<newline>        ###.\<newline>        ....\<newline>        '',
    ''\<newline>        ....\<newline>        .##.\<newline>        #...\<newline>        ###.\<newline>        #..#\<newline>        .##.\<newline>        ....\<newline>        '',
    ''\<newline>        ....\<newline>        ####\<newline>        ...#\<newline>        ..#.\<newline>        .#..\<newline>        #...\<newline>        ....\<newline>        '',
    ''\<newline>        ....\<newline>        .##.\<newline>        #..#\<newline>        .##.\<newline>        #..#\<newline>        .##.\<newline>        ....\<newline>        '',
    ''\<newline>        ....\<newline>        .##.\<newline>        #..#\<newline>        .###\<newline>        ...#\<newline>        ..#.\<newline>        ....\<newline>        '',
    ''\<newline>        .\<newline>        .\<newline>        #\<newline>        .\<newline>        #\<newline>        .\<newline>        .\<newline>        '',
    ''\<newline>        .\<newline>        .\<newline>        #\<newline>        .\<newline>        #\<newline>        #\<newline>        .\<newline>        '',
    ''\<newline>        ...\<newline>        ..#\<newline>        .#.\<newline>        #..\<newline>        .#.\<newline>        ..#\<newline>        ...\<newline>        '',
    ''\<newline>        ...\<newline>        ...\<newline>        ###\<newline>        ...\<newline>        ###\<newline>        ...\<newline>        ...\<newline>        '',
    ''\<newline>        ...\<newline>        #..\<newline>        .#.\<newline>        ..#\<newline>        .#.\<newline>        #..\<newline>        ...\<newline>        '',
    ''\<newline>        ....\<newline>        .##.\<newline>        ...#\<newline>        ..#.\<newline>        ....\<newline>        ..#.\<newline>        ....\<newline>        '',
    ''\<newline>        .....\<newline>        .###.\<newline>        #.#.#\<newline>        #.#.#\<newline>        #.###\<newline>        .##..\<newline>        .....\<newline>        '',
    ''\<newline>        ....\<newline>        .##.\<newline>        #..#\<newline>        ####\<newline>        #..#\<newline>        #..#\<newline>        ....\<newline>        '',
    ''\<newline>        ....\<newline>        ###.\<newline>        #..#\<newline>        ###.\<newline>        #..#\<newline>        ###.\<newline>        ....\<newline>        '',
    ''\<newline>        ....\<newline>        .###\<newline>        #...\<newline>        #...\<newline>        #...\<newline>        .###\<newline>        ....\<newline>        '',
    ''\<newline>        ....\<newline>        ##..\<newline>        #.#.\<newline>        #..#\<newline>        #.#.\<newline>        ##..\<newline>        ....\<newline>        '',
    ''\<newline>        ....\<newline>        ####\<newline>        #...\<newline>        ###.\<newline>        #...\<newline>        ####\<newline>        ....\<newline>        '',
    ''\<newline>        ....\<newline>        ####\<newline>        #...\<newline>        ###.\<newline>        #...\<newline>        #...\<newline>        ....\<newline>        '',
    ''\<newline>        ....\<newline>        .###\<newline>        #...\<newline>        #.##\<newline>        #..#\<newline>        .###\<newline>        ....\<newline>        '',
    ''\<newline>        ....\<newline>        #..#\<newline>        #..#\<newline>        ####\<newline>        #..#\<newline>        #..#\<newline>        ....\<newline>        '',
    ''\<newline>        ...\<newline>        ###\<newline>        .#.\<newline>        .#.\<newline>        .#.\<newline>        ###\<newline>        ...\<newline>        '',
    ''\<newline>        ....\<newline>        ...#\<newline>        ...#\<newline>        ...#\<newline>        #..#\<newline>        .##.\<newline>        ....\<newline>        '',
    ''\<newline>        ....\<newline>        #..#\<newline>        #.#.\<newline>        ##..\<newline>        #.#.\<newline>        #..#\<newline>        ....\<newline>        '',
    ''\<newline>        ....\<newline>        #...\<newline>        #...\<newline>        #...\<newline>        #...\<newline>        ####\<newline>        ....\<newline>        '',
    ''\<newline>        .....\<newline>        .#.#.\<newline>        #.#.#\<newline>        #.#.#\<newline>        #...#\<newline>        #...#\<newline>        .....\<newline>        '',
    ''\<newline>        .....\<newline>        #...#\<newline>        ##..#\<newline>        #.#.#\<newline>        #..##\<newline>        #...#\<newline>        .....\<newline>        '',
    ''\<newline>        ....\<newline>        .##.\<newline>        #..#\<newline>        #..#\<newline>        #..#\<newline>        .##.\<newline>        ....\<newline>        '',
    ''\<newline>        ....\<newline>        ###.\<newline>        #..#\<newline>        ###.\<newline>        #...\<newline>        #...\<newline>        ....\<newline>        '',
    ''\<newline>        ....\<newline>        .##.\<newline>        #..#\<newline>        #..#\<newline>        #.##\<newline>        .##.\<newline>        ...#\<newline>        '',
    ''\<newline>        ....\<newline>        ###.\<newline>        #..#\<newline>        ###.\<newline>        #.#.\<newline>        #..#\<newline>        ....\<newline>        '',
    ''\<newline>        ....\<newline>        .###\<newline>        #...\<newline>        .##.\<newline>        ...#\<newline>        ###.\<newline>        ....\<newline>        '',
    ''\<newline>        ...\<newline>        ###\<newline>        .#.\<newline>        .#.\<newline>        .#.\<newline>        .#.\<newline>        ...\<newline>        '',
    ''\<newline>        ....\<newline>        #..#\<newline>        #..#\<newline>        #..#\<newline>        #..#\<newline>        .##.\<newline>        ....\<newline>        '',
    ''\<newline>        ....\<newline>        #..#\<newline>        #..#\<newline>        #..#\<newline>        #.#.\<newline>        .#..\<newline>        ....\<newline>        '',
    ''\<newline>        .....\<newline>        #...#\<newline>        #...#\<newline>        #.#.#\<newline>        #.#.#\<newline>        .#.#.\<newline>        .....\<newline>        '',
    ''\<newline>        .....\<newline>        #...#\<newline>        .#.#.\<newline>        ..#..\<newline>        .#.#.\<newline>        #...#\<newline>        .....\<newline>        '',
    ''\<newline>        ...\<newline>        #.#\<newline>        #.#\<newline>        .#.\<newline>        .#.\<newline>        .#.\<newline>        ...\<newline>        '',
    ''\<newline>        ....\<newline>        ####\<newline>        ..#.\<newline>        .#..\<newline>        #...\<newline>        ####\<newline>        ....\<newline>        '',
    ''\<newline>        ##\<newline>        #.\<newline>        #.\<newline>        #.\<newline>        #.\<newline>        #.\<newline>        ##\<newline>        '',
    ''\<newline>        .....\<newline>        #....\<newline>        .#...\<newline>        ..#..\<newline>        ...#.\<newline>        ....#\<newline>        .....\<newline>        '',
    ''\<newline>        ##\<newline>        .#\<newline>        .#\<newline>        .#\<newline>        .#\<newline>        .#\<newline>        ##\<newline>        '',
    ''\<newline>        ...\<newline>        .#.\<newline>        #.#\<newline>        ...\<newline>        ...\<newline>        ...\<newline>        ...\<newline>        '',
    ''\<newline>        ...\<newline>        ...\<newline>        ...\<newline>        ...\<newline>        ...\<newline>        ###\<newline>        ...\<newline>        '',
    ''\<newline>        ..\<newline>        #.\<newline>        .#\<newline>        ..\<newline>        ..\<newline>        ..\<newline>        ..\<newline>        '',
    ''\<newline>        ....\<newline>        .##.\<newline>        ...#\<newline>        .###\<newline>        #..#\<newline>        .###\<newline>        ....\<newline>        '',
    ''\<newline>        ....\<newline>        #...\<newline>        #...\<newline>        ###.\<newline>        #..#\<newline>        ###.\<newline>        ....\<newline>        '',
    ''\<newline>        ...\<newline>        ...\<newline>        ...\<newline>        .##\<newline>        #..\<newline>        .##\<newline>        ...\<newline>        '',
    ''\<newline>        ....\<newline>        ...#\<newline>        ...#\<newline>        .###\<newline>        #..#\<newline>        .###\<newline>        ....\<newline>        '',
    ''\<newline>        ....\<newline>        ....\<newline>        .##.\<newline>        ####\<newline>        #...\<newline>        .###\<newline>        ....\<newline>        '',
    ''\<newline>        ....\<newline>        ..##\<newline>        .#..\<newline>        ###.\<newline>        .#..\<newline>        .#..\<newline>        ....\<newline>        '',
    ''\<newline>        ....\<newline>        ....\<newline>        .###\<newline>        #..#\<newline>        .###\<newline>        ...#\<newline>        .##.\<newline>        '',
    ''\<newline>        ....\<newline>        #...\<newline>        #...\<newline>        ###.\<newline>        #..#\<newline>        #..#\<newline>        ....\<newline>        '',
    ''\<newline>        .\<newline>        #\<newline>        .\<newline>        #\<newline>        #\<newline>        #\<newline>        .\<newline>        '',
    ''\<newline>        ...\<newline>        ..#\<newline>        ...\<newline>        ..#\<newline>        ..#\<newline>        ..#\<newline>        ##.\<newline>        '',
    ''\<newline>        ...\<newline>        #..\<newline>        #..\<newline>        #.#\<newline>        ##.\<newline>        #.#\<newline>        ...\<newline>        '',
    ''\<newline>        .\<newline>        #\<newline>        #\<newline>        #\<newline>        #\<newline>        #\<newline>        .\<newline>        '',
    ''\<newline>        .....\<newline>        .....\<newline>        .....\<newline>        .#.#.\<newline>        #.#.#\<newline>        #...#\<newline>        .....\<newline>        '',
    ''\<newline>        ....\<newline>        ....\<newline>        ....\<newline>        .##.\<newline>        #..#\<newline>        #..#\<newline>        ....\<newline>        '',
    ''\<newline>        ....\<newline>        ....\<newline>        ....\<newline>        .##.\<newline>        #..#\<newline>        .##.\<newline>        ....\<newline>        '',
    ''\<newline>        ....\<newline>        ....\<newline>        .##.\<newline>        #..#\<newline>        ###.\<newline>        #...\<newline>        #...\<newline>        '',
    ''\<newline>        ....\<newline>        ....\<newline>        .##.\<newline>        #..#\<newline>        .###\<newline>        ...#\<newline>        ...#\<newline>        '',
    ''\<newline>        ...\<newline>        ...\<newline>        ...\<newline>        .##\<newline>        #..\<newline>        #..\<newline>        ...\<newline>        '',
    ''\<newline>        ....\<newline>        ....\<newline>        .###\<newline>        #...\<newline>        ..##\<newline>        ###.\<newline>        ....\<newline>        '',
    ''\<newline>        ...\<newline>        .#.\<newline>        .#.\<newline>        ###\<newline>        .#.\<newline>        .#.\<newline>        ...\<newline>        '',
    ''\<newline>        ....\<newline>        ....\<newline>        ....\<newline>        #..#\<newline>        #..#\<newline>        .##.\<newline>        ....\<newline>        '',
    ''\<newline>        ....\<newline>        ....\<newline>        ....\<newline>        #..#\<newline>        #.#.\<newline>        .#..\<newline>        ....\<newline>        '',
    ''\<newline>        .....\<newline>        .....\<newline>        .....\<newline>        #...#\<newline>        #.#.#\<newline>        .#.#.\<newline>        .....\<newline>        '',
    ''\<newline>        ...\<newline>        ...\<newline>        ...\<newline>        #.#\<newline>        .#.\<newline>        #.#\<newline>        ...\<newline>        '',
    ''\<newline>        ...\<newline>        ...\<newline>        #.#\<newline>        .##\<newline>        ..#\<newline>        .#.\<newline>        ...\<newline>        '',
    ''\<newline>        ...\<newline>        ...\<newline>        ###\<newline>        .#.\<newline>        #..\<newline>        ###\<newline>        ...\<newline>        '',
    ''\<newline>        .##\<newline>        .#.\<newline>        .#.\<newline>        #..\<newline>        .#.\<newline>        .#.\<newline>        .##\<newline>        '',
    ''\<newline>        .\<newline>        #\<newline>        #\<newline>        #\<newline>        #\<newline>        #\<newline>        .\<newline>        '',
    ''\<newline>        ##.\<newline>        .#.\<newline>        .#.\<newline>        ..#\<newline>        .#.\<newline>        .#.\<newline>        ##.\<newline>        '',
    ''\<newline>        ......\<newline>        ......\<newline>        .##..#\<newline>        #..##.\<newline>        ......\<newline>        ......\<newline>        ......\<newline>            '']
"

definition get_font :: "string list list" where
  "get_font = map (\<lambda>char. map strip (split char)) font"

subsection \<open>Arguments and effects\<close>

text \<open>
  The parsed command line.  \<open>message\<close> is the list of words (\<open>nargs="+"\<close>), \<open>start\<close> is
  the value of \<open>datetime.fromisoformat(args.start)\<close>, \<open>None\<close> when that call raises
  \<open>ValueError\<close>.
\<close>

record args =
  min_commits :: int
  max_commits :: int
  dry_run :: bool
  invert :: bool
  preview :: bool
  start :: "datetime option"
  message :: "pystr list"

text \<open>
  What a run does, in order.  A date that the source formats with \<open>strftime\<close> is kept as
  the \<open>datetime\<close> that is formatted: \<open>GitCommit d\<close> is one call of
  \<open>git commit --allow-empty --date=d --message d\<close>, \<open>PrintProgress d bar\<close> the progress
  line of a day.  \<open>GitCommit d\<close> stands for a call of \<open>subprocess.run\<close> that returned; a
  call that raises leaves no event.  Printing and sleeping return.
\<close>

datatype event =
    PrintUsage
  | Eprint string
  | PrintStarting datetime
  | PrintEnding datetime
  | Print string
  | PrintProgress datetime string
  | GitCommit datetime
  | Sleep

datatype outcome = Returned | SysExit int | Raised py_error

subsection \<open>\<open>progress\<close> and the cursor functions\<close>

text \<open>\<open>int(percent)\<close> truncates towards zero.  \<open>percent\<close> is the quotient
  \<open>day * 100 / num_days\<close>, or the integer 100.  The source computes the quotient in
  floating point; here it is the exact fraction.  The values 0 and 100 are the same in
  both.\<close>

definition py_int :: "rat \<Rightarrow> int" where
  "py_int r = (if 0 \<le> r then \<lfloor>r\<rfloor> else \<lceil>r\<rceil>)"

definition progress :: "rat \<Rightarrow> string" where
  "progress percent =
     (let bar = foldl (\<lambda>bar i. if of_nat (i * 4) \<le> percent then bar @ ''='' else bar @ '' '')
                  [] [0..<25]
      in ''['' @ bar @ ''] '' @ str_int (py_int percent) @ ''%'')"

definition cursor_up :: "int \<Rightarrow> event list" where
  "cursor_up n = (if n > 0 then [Print ([ESC] @ ''['' @ str_int n @ ''A'')] else [])"

definition cursor_down :: "int \<Rightarrow> event list" where
  "cursor_down n = (if n > 0 then [Print ([ESC] @ ''['' @ str_int n @ ''B'')] else [])"

definition cursor_right :: "int \<Rightarrow> event list" where
  "cursor_right n = (if n > 0 then [Print ([ESC] @ ''['' @ str_int n @ ''C'')] else [])"

subsection \<open>Validation of the message (lines 88 to 98)\<close>

definition invalid_chars :: "pystr \<Rightarrow> string list" where
  "invalid_chars msg =
     map (\<lambda>digit. ''0x'' @ format_02X digit)
       (filter (\<lambda>digit. int digit < ASCII_PRINTABLE_FIRST \<or> int digit > ASCII_PRINTABLE_LAST) msg)"

subsection \<open>The grid (lines 102 to 114)\<close>

fun row_text_loop :: "string list list \<Rightarrow> nat \<Rightarrow> pystr \<Rightarrow> string \<Rightarrow> py_error + string" where
  "row_text_loop fnt row [] row_text = Inr row_text"
| "row_text_loop fnt row (char # rest) row_text =
     (let digit = int char - ASCII_PRINTABLE_FIRST in
      case py_index fnt digit of
        Inl e \<Rightarrow> Inl e
      | Inr font_letter \<Rightarrow>
          (case py_index font_letter (int row) of
             Inl e \<Rightarrow> Inl e
           | Inr r \<Rightarrow> row_text_loop fnt row rest (row_text @ r @ ''.'')))"

definition invert_row :: "string \<Rightarrow> string" where
  "invert_row row_text = map (\<lambda>c. if c = CHR ''.'' then CHR ''#'' else CHR ''.'') row_text"

fun grid_loop ::
  "string list list \<Rightarrow> pystr \<Rightarrow> bool \<Rightarrow> nat list \<Rightarrow> string list \<Rightarrow> py_error + string list" where
  "grid_loop fnt msg do_invert [] grid = Inr grid"
| "grid_loop fnt msg do_invert (row # rows) grid =
     (case row_text_loop fnt row msg ''.'' of
        Inl e \<Rightarrow> Inl e
      | Inr row_text \<Rightarrow>
          grid_loop fnt msg do_invert rows (grid @ [if do_invert then invert_row row_text else row_text]))"

definition build_grid :: "string list list \<Rightarrow> pystr \<Rightarrow> bool \<Rightarrow> py_error + string list" where
  "build_grid fnt msg do_invert = grid_loop fnt msg do_invert [0..<7] []"

subsection \<open>The calendar window (lines 116 to 123)\<close>

text \<open>\<open>len(grid) * len(grid[0])\<close>.\<close>

definition num_days_of :: "string list \<Rightarrow> py_error + nat" where
  "num_days_of grid =
     (case py_index grid 0 of Inl e \<Rightarrow> Inl e | Inr row0 \<Rightarrow> Inr (length grid * length row0))"

text \<open>The start at noon, moved back to a Sunday.\<close>

definition noon :: "datetime \<Rightarrow> datetime" where
  "noon dt = dt\<lparr>hour := 12, minute := 0, second := 0, microsecond := 0\<rparr>"

definition compute_beginning :: "datetime \<Rightarrow> py_error + datetime" where
  "compute_beginning dt =
     (let beginning = noon dt
      in add_days beginning (- ((weekday beginning + 1) mod 7)))"

subsection \<open>The loop over the days (lines 133 to 174)\<close>

text \<open>\<open>y = day % 7\<close> and \<open>x = day // 7\<close>.\<close>

definition day_cell :: "nat \<Rightarrow> nat \<times> nat" where
  "day_cell day = (day mod 7, day div 7)"

text \<open>Lines 152 to 164: the calls of \<open>git commit\<close> for one day, \<open>c\<close> calls of
  \<open>subprocess.run\<close> having been made before.  The first call that raises ends the run.\<close>

fun commit_loop :: "launcher \<Rightarrow> datetime \<Rightarrow> nat \<Rightarrow> nat \<Rightarrow> event list \<times> (py_error + nat)" where
  "commit_loop launch the_date 0 c = ([], Inr c)"
| "commit_loop launch the_date (Suc n) c =
     (case launch c of
        Some e \<Rightarrow> ([], Inl (OSError e))
      | None \<Rightarrow>
          (case commit_loop launch the_date n (Suc c) of
             (evs, r) \<Rightarrow> (GitCommit the_date # evs, r)))"

text \<open>Lines 148 to 167: the commits of a day that is on.  The result is the events and
  the numbers of draws and of calls used so far.\<close>

definition commit_day ::
  "args \<Rightarrow> (nat \<Rightarrow> nat) \<Rightarrow> launcher \<Rightarrow> datetime \<Rightarrow> nat \<Rightarrow> nat
     \<Rightarrow> event list \<times> (py_error + nat \<times> nat)" where
  "commit_day a rng launch the_date k c =
     (if \<not> dry_run a then
        (let commits_diff = max_commits a - min_commits a + 1 in
         case randrange rng k commits_diff of
           Inl e \<Rightarrow> ([], Inl e)
         | Inr r \<Rightarrow>
             (let num_commits = min_commits a + r in
              case commit_loop launch the_date (nat num_commits) c of
                (evs, Inl e) \<Rightarrow> (evs, Inl e)
              | (evs, Inr c') \<Rightarrow> (evs, Inr (Suc k, c'))))
      else ([Sleep], Inr (k, c)))"

text \<open>Lines 169 to 174.\<close>

definition preview_cell :: "args \<Rightarrow> nat \<Rightarrow> nat \<Rightarrow> char \<Rightarrow> event list" where
  "preview_cell a y x char =
     (if preview a then
        [Print [CHR 0x0D]] @ cursor_up (7 - int y) @ cursor_right (int x)
          @ [Print [char]] @ cursor_down (7 - int y)
      else [])"

definition day_body ::
  "args \<Rightarrow> (nat \<Rightarrow> nat) \<Rightarrow> launcher \<Rightarrow> string list \<Rightarrow> datetime \<Rightarrow> nat \<Rightarrow> nat \<Rightarrow> nat
     \<Rightarrow> nat \<Rightarrow> event list \<times> (py_error + nat \<times> nat)" where
  "day_body a rng launch grid beginning num_days day k c =
     (case day_cell day of (y, x) \<Rightarrow>
      (case py_index grid (int y) of
        Inl e \<Rightarrow> ([], Inl e)
      | Inr row \<Rightarrow>
      (case py_index row (int x) of
        Inl e \<Rightarrow> ([], Inl e)
      | Inr char \<Rightarrow>
      (case add_days beginning (int day) of
        Inl e \<Rightarrow> ([], Inl e)
      | Inr the_date \<Rightarrow>
      (let shown = [PrintProgress the_date (progress (of_nat (day * 100) / of_nat num_days))] in
       if char = CHR ''.'' then (shown, Inr (k, c))
       else
         (case commit_day a rng launch the_date k c of
            (evs, Inl e) \<Rightarrow> (shown @ evs, Inl e)
          | (evs, Inr kc) \<Rightarrow> (shown @ evs @ preview_cell a y x char, Inr kc)))))))"

fun day_loop ::
  "args \<Rightarrow> (nat \<Rightarrow> nat) \<Rightarrow> launcher \<Rightarrow> string list \<Rightarrow> datetime \<Rightarrow> nat \<Rightarrow> nat list \<Rightarrow> nat
     \<Rightarrow> nat \<Rightarrow> event list \<times> py_error option" where
  "day_loop a rng launch grid beginning num_days [] k c = ([], None)"
| "day_loop a rng launch grid beginning num_days (day # days) k c =
     (case day_body a rng launch grid beginning num_days day k c of
        (evs, Inl e) \<Rightarrow> (evs, Some e)
      | (evs, Inr (k', c')) \<Rightarrow>
          (case day_loop a rng launch grid beginning num_days days k' c' of
             (evs', r) \<Rightarrow> (evs @ evs', r)))"

subsection \<open>\<open>main\<close>\<close>

text \<open>
  Lines 116 to 179.  After the loop \<open>the_date\<close> still holds the date of the last day,
  which is \<open>end\<close>; with no day at all the name would be unbound.
\<close>

definition schedule ::
  "args \<Rightarrow> (nat \<Rightarrow> nat) \<Rightarrow> launcher \<Rightarrow> string list \<Rightarrow> event list \<times> outcome" where
  "schedule a rng launch grid =
     (case num_days_of grid of
        Inl e \<Rightarrow> ([], Raised e)
      | Inr num_days \<Rightarrow>
      (case start a of
        None \<Rightarrow> ([], Raised ValueError)
      | Some dt \<Rightarrow>
      (case compute_beginning dt of
        Inl e \<Rightarrow> ([], Raised e)
      | Inr beginning \<Rightarrow>
      (case add_days beginning (int num_days - 1) of
        Inl e \<Rightarrow> ([], Raised e)
      | Inr end_date \<Rightarrow>
      (let head = [PrintStarting beginning, PrintEnding end_date]
                    @ (if preview a then replicate (length grid) (Print ''\<newline>'') else [])
       in case day_loop a rng launch grid beginning num_days [0..<num_days] 0 0 of
            (evs, Some e) \<Rightarrow> (head @ evs, Raised e)
          | (evs, None) \<Rightarrow>
              (if num_days = 0 then (head @ evs, Raised UnboundLocalError)
               else (head @ evs @ [PrintProgress end_date (progress 100)], Returned)))))))"

text \<open>Lines 64 to 100, then the rest.\<close>

definition main :: "(nat \<Rightarrow> nat) \<Rightarrow> launcher \<Rightarrow> args \<Rightarrow> event list \<times> outcome" where
  "main rng launch a =
     (let msg = join [32] (message a) in
      if length msg = 0 then
        ([PrintUsage, Eprint ''Empty message is invalid''], SysExit 1)
      else if min_commits a < 0 then
        ([PrintUsage, Eprint ''MIN_COMMITS must be at least 0''], SysExit 1)
      else if max_commits a < 1 then
        ([PrintUsage, Eprint ''MAX_COMMITS must be at least 1''], SysExit 1)
      else if min_commits a > max_commits a then
        ([PrintUsage,
          Eprint (''MIN_COMMITS ('' @ str_int (min_commits a)
                    @ '') cannot be more than MAX_COMMITS ('' @ str_int (max_commits a) @ '')'')],
         SysExit 1)
      else
        (let invalid = invalid_chars msg in
         if length invalid > 0 then
           ([PrintUsage, Eprint (''Unsupported characters in message: '' @ join '' '' invalid)],
            SysExit 1)
         else
           (case build_grid get_font msg (invert a) of
              Inl e \<Rightarrow> ([], Raised e)
            | Inr grid \<Rightarrow> schedule a rng launch grid)))"

section \<open>Notions used to state the properties\<close>

subsection \<open>Messages, glyphs and grids\<close>

text \<open>A message of printable ASCII characters only.\<close>

definition printable_ascii :: "pystr \<Rightarrow> bool" where
  "printable_ascii msg =
     list_all (\<lambda>c. ASCII_PRINTABLE_FIRST \<le> int c \<and> int c \<le> ASCII_PRINTABLE_LAST) msg"

text \<open>A glyph of the table: seven rows of one width, which is at most six.\<close>

definition glyph_ok :: "string list \<Rightarrow> bool" where
  "glyph_ok g =
     (length g = 7 \<and> (\<forall>r\<in>set g. length r = length (g ! 0) \<and> length r \<le> 6))"

text \<open>The number of columns of the glyph of a character.\<close>

definition glyph_columns :: "nat \<Rightarrow> nat" where
  "glyph_columns c = length (get_font ! (c - 32) ! 0)"

text \<open>A grid of seven rows of \<open>C\<close> columns each.\<close>

definition regular :: "string list \<Rightarrow> nat \<Rightarrow> bool" where
  "regular grid C = (length grid = 7 \<and> list_all (\<lambda>row. length row = C) grid)"

text \<open>What the inner loop appends to a row, and the finished row.\<close>

definition row_cells :: "nat \<Rightarrow> pystr \<Rightarrow> string" where
  "row_cells row msg = concat (map (\<lambda>c. get_font ! (c - 32) ! row @ ''.'') msg)"

definition grid_row :: "pystr \<Rightarrow> bool \<Rightarrow> nat \<Rightarrow> string" where
  "grid_row msg do_invert row =
     (if do_invert then invert_row (''.'' @ row_cells row msg) else ''.'' @ row_cells row msg)"

subsection \<open>Hexadecimal digits\<close>

text \<open>The value of a string of upper-case hexadecimal digits.\<close>

definition hex_digit_value :: "char \<Rightarrow> nat" where
  "hex_digit_value c = (if of_char c < (58 :: nat) then of_char c - 48 else of_char c - 55)"

definition hex_value :: "string \<Rightarrow> nat" where
  "hex_value s = foldl (\<lambda>v c. 16 * v + hex_digit_value c) 0 s"

subsection \<open>Days, dates and commits\<close>

text \<open>The index of a day in a week that starts on Sunday.\<close>

definition start_of_week_index :: "datetime \<Rightarrow> int" where
  "start_of_week_index dt = (weekday dt + 1) mod 7"

text \<open>The date of a day of the window: \<open>beginning + timedelta(days=day)\<close> where that is
  in range.\<close>

definition day_date :: "datetime \<Rightarrow> nat \<Rightarrow> datetime" where
  "day_date beginning day = beginning\<lparr>ordinal := ordinal beginning + int day\<rparr>"

text \<open>The days whose cell is on, as the loop reads them.\<close>

definition cell_on :: "string list \<Rightarrow> nat \<Rightarrow> bool" where
  "cell_on grid day = (case day_cell day of (y, x) \<Rightarrow> grid ! y ! x \<noteq> CHR ''.'')"

definition on_days :: "string list \<Rightarrow> nat list" where
  "on_days grid = filter (cell_on grid) [0..<length grid * length (grid ! 0)]"

text \<open>The dates of the commits that a run creates, in order.\<close>

fun commit_dates :: "event list \<Rightarrow> datetime list" where
  "commit_dates [] = []"
| "commit_dates (GitCommit d # evs) = d # commit_dates evs"
| "commit_dates (e # evs) = commit_dates evs"

text \<open>The number of commits that the \<open>k\<close>-th draw gives, and the commits of a list of
  dates when the first of them uses draw \<open>k\<close>.\<close>

definition num_commits :: "args \<Rightarrow> (nat \<Rightarrow> nat) \<Rightarrow> nat \<Rightarrow> int" where
  "num_commits a rng k =
     min_commits a + int (rng k) mod (max_commits a - min_commits a + 1)"

fun batches :: "args \<Rightarrow> (nat \<Rightarrow> nat) \<Rightarrow> nat \<Rightarrow> datetime list \<Rightarrow> datetime list" where
  "batches a rng k [] = []"
| "batches a rng k (d # ds) = replicate (nat (num_commits a rng k)) d @ batches a rng (Suc k) ds"

text \<open>The dates of the days that are on, for a grid and a start, or the error that stops
  the run before the loop; the same for the words of a message.\<close>

definition plan :: "string list \<Rightarrow> datetime option \<Rightarrow> py_error + datetime list" where
  "plan grid st =
     (case st of
        None \<Rightarrow> Inl ValueError
      | Some dt \<Rightarrow>
          (case compute_beginning dt of
             Inl e \<Rightarrow> Inl e
           | Inr b \<Rightarrow>
               (case add_days b (int (length grid * length (grid ! 0)) - 1) of
                  Inl e \<Rightarrow> Inl e
                | Inr end_date \<Rightarrow> Inr (map (day_date b) (on_days grid)))))"

definition planned :: "pystr list \<Rightarrow> bool \<Rightarrow> datetime option \<Rightarrow> py_error + datetime list" where
  "planned ws do_invert st =
     (case build_grid get_font (join [32] ws) do_invert of
        Inl e \<Rightarrow> Inl e
      | Inr grid \<Rightarrow> plan grid st)"

text \<open>The dates of the days that are on in a run, none when the run stops before the
  loop.\<close>

definition on_dates :: "pystr list \<Rightarrow> bool \<Rightarrow> datetime option \<Rightarrow> datetime list" where
  "on_dates ws do_invert st =
     (if join [32] ws = [] \<or> \<not> printable_ascii (join [32] ws) then []
      else case planned ws do_invert st of Inl e \<Rightarrow> [] | Inr ds \<Rightarrow> ds)"

subsection \<open>Launching \<open>git\<close>\<close>

text \<open>
  Of the \<open>n\<close> calls of \<open>subprocess.run\<close> from the \<open>c\<close>-th on, the number that return before
  the first one that raises, and the error of that one, if any.
\<close>

fun launched :: "launcher \<Rightarrow> nat \<Rightarrow> nat \<Rightarrow> nat" where
  "launched launch c 0 = 0"
| "launched launch c (Suc n) =
     (case launch c of None \<Rightarrow> Suc (launched launch (Suc c) n) | Some e \<Rightarrow> 0)"

definition launch_error :: "launcher \<Rightarrow> nat \<Rightarrow> nat \<Rightarrow> os_error option" where
  "launch_error launch c n =
     (if launched launch c n = n then None else launch (c + launched launch c n))"

text \<open>
  The commits that a run creates for the dates of the days that are on, and the error
  that stops it, if any: the commits of the days are requested in order, up to the first
  call that raises.
\<close>

definition created :: "args \<Rightarrow> (nat \<Rightarrow> nat) \<Rightarrow> launcher \<Rightarrow> datetime list \<Rightarrow> datetime list" where
  "created a rng launch ds =
     (if dry_run a then []
      else take (launched launch 0 (length (batches a rng 0 ds))) (batches a rng 0 ds))"

definition stopped :: "args \<Rightarrow> (nat \<Rightarrow> nat) \<Rightarrow> launcher \<Rightarrow> datetime list \<Rightarrow> os_error option" where
  "stopped a rng launch ds =
     (if dry_run a then None else launch_error launch 0 (length (batches a rng 0 ds)))"

text \<open>A machine where \<open>git\<close> is started every time, and one with no \<open>git\<close> on the search
  path.\<close>

definition git_found :: launcher where
  "git_found c = None"

definition git_missing :: launcher where
  "git_missing c = Some FileNotFoundError"

subsection \<open>Concrete inputs\<close>

text \<open>
  Three dates: 0001-01-01 00:00:00, the first day a \<open>datetime\<close> can hold, a Monday;
  2023-01-03 08:30:15, a Tuesday; 2023-01-01 12:00:00, the Sunday before it.
\<close>

definition monday_0001_01_01 :: datetime where
  "monday_0001_01_01 =
     \<lparr>ordinal = 1, hour = 0, minute = 0, second = 0, microsecond = 0, tzinfo = None\<rparr>"

definition tuesday_2023_01_03 :: datetime where
  "tuesday_2023_01_03 =
     \<lparr>ordinal = 738523, hour = 8, minute = 30, second = 15, microsecond = 0, tzinfo = None\<rparr>"

definition sunday_2023_01_01 :: datetime where
  "sunday_2023_01_01 =
     \<lparr>ordinal = 738521, hour = 12, minute = 0, second = 0, microsecond = 0, tzinfo = None\<rparr>"

text \<open>
  Command lines, all started on 2023-01-03: the two words \<open>Hi\<close> and U+0007; the message
  U+20AC; \<open>--min-commits 10 --max-commits 5 Hi\<close>; \<open>--min-commits -1\<close> and the empty
  message; and the message \<open>!\<close> with the default bounds and a preview, with the bounds 0
  and 1, and with the bounds 1 and 2.
\<close>

definition args_bell :: args where
  "args_bell =
     \<lparr>min_commits = 30, max_commits = 35, dry_run = False, invert = False, preview = False,
      start = Some tuesday_2023_01_03, message = [[72, 105], [7]]\<rparr>"

definition args_euro :: args where
  "args_euro =
     \<lparr>min_commits = 30, max_commits = 35, dry_run = False, invert = False, preview = False,
      start = Some tuesday_2023_01_03, message = [[8364]]\<rparr>"

definition args_10_5 :: args where
  "args_10_5 =
     \<lparr>min_commits = 10, max_commits = 5, dry_run = False, invert = False, preview = False,
      start = Some tuesday_2023_01_03, message = [[72, 105]]\<rparr>"

definition args_empty_minus_1 :: args where
  "args_empty_minus_1 =
     \<lparr>min_commits = - 1, max_commits = 35, dry_run = False, invert = False, preview = False,
      start = Some tuesday_2023_01_03, message = [[]]\<rparr>"

definition args_bang :: args where
  "args_bang =
     \<lparr>min_commits = 30, max_commits = 35, dry_run = False, invert = False, preview = True,
      start = Some tuesday_2023_01_03, message = [[33]]\<rparr>"

definition args_bang_0_1 :: args where
  "args_bang_0_1 =
     \<lparr>min_commits = 0, max_commits = 1, dry_run = False, invert = False, preview = False,
      start = Some tuesday_2023_01_03, message = [[33]]\<rparr>"

definition args_bang_1_2 :: args where
  "args_bang_1_2 =
     \<lparr>min_commits = 1, max_commits = 2, dry_run = False, invert = False, preview = False,
      start = Some tuesday_2023_01_03, message = [[33]]\<rparr>"

section \<open>The font table\<close>

lemma split_from_font_chars:
  "split_from [] (CHR '' '' # cs) = split_from [] cs"
  "split_from [] (CHR ''\<newline>'' # cs) = split_from [] cs"
  "split_from (a # w) (CHR '' '' # cs) = (a # w) # split_from [] cs"
  "split_from (a # w) (CHR ''\<newline>'' # cs) = (a # w) # split_from [] cs"
  "split_from w (CHR ''.'' # cs) = split_from (w @ ''.'') cs"
  "split_from w (CHR ''#'' # cs) = split_from (w @ ''#'') cs"
  by (simp_all add: isspace_def)

lemma dropWhile_none: "\<forall>c\<in>set s. \<not> P c \<Longrightarrow> dropWhile P s = s"
  by (cases s) auto

lemma strip_glyph_row:
  assumes "set s \<subseteq> {CHR ''.'', CHR ''#''}"
  shows "strip s = s"
proof -
  have ns: "\<forall>c\<in>set s. \<not> isspace c" using assms by (auto simp: isspace_def)
  then have "\<forall>c\<in>set (rev s). \<not> isspace c" by simp
  then show ?thesis using ns by (simp add: strip_def dropWhile_none del: set_rev)
qed

lemma length_get_font: "length get_font = 95"
  by (simp add: get_font_def font_def)

lemma get_font_ok: "list_all glyph_ok get_font"
  unfolding get_font_def font_def split_def
  by (simp add: split_from_font_chars strip_glyph_row glyph_ok_def del: split_from.simps(2))

lemma py_index_nat:
  "py_index xs (int i) = (if i < length xs then Inr (xs ! i) else Inl IndexError)"
  by (simp add: py_index_def)

lemma glyph_lookup:
  assumes "32 \<le> c" "c \<le> 126"
  shows "py_index get_font (int c - ASCII_PRINTABLE_FIRST) = Inr (get_font ! (c - 32))"
    and "glyph_ok (get_font ! (c - 32))"
proof -
  have eq: "int c - ASCII_PRINTABLE_FIRST = int (c - 32)"
    using assms by (simp add: ASCII_PRINTABLE_FIRST_def)
  have lt: "c - 32 < length get_font" using assms by (simp add: length_get_font)
  show "py_index get_font (int c - ASCII_PRINTABLE_FIRST) = Inr (get_font ! (c - 32))"
    unfolding eq py_index_nat using lt by simp
  show "glyph_ok (get_font ! (c - 32))"
    using get_font_ok nth_mem [OF lt] unfolding list_all_iff by (rule bspec)
qed

lemma glyph_row:
  assumes "glyph_ok g" "row < 7"
  shows "py_index g (int row) = Inr (g ! row)" and "length (g ! row) = length (g ! 0)"
    and "length (g ! row) \<le> 6"
proof -
  from assms(1) have len: "length g = 7"
    and rows: "\<And>r. r \<in> set g \<Longrightarrow> length r = length (g ! 0)"
    and wide: "\<And>r. r \<in> set g \<Longrightarrow> length r \<le> 6"
    unfolding glyph_ok_def by blast+
  have lt: "row < length g" unfolding len by (rule assms(2))
  show "py_index g (int row) = Inr (g ! row)"
    unfolding py_index_nat using lt by (rule if_P)
  show "length (g ! row) = length (g ! 0)"
    by (rule rows [OF nth_mem [OF lt]])
  show "length (g ! row) \<le> 6"
    by (rule wide [OF nth_mem [OF lt]])
qed

section \<open>The grid\<close>

lemma printable_ascii_Cons:
  "printable_ascii (c # msg) \<longleftrightarrow> 32 \<le> c \<and> c \<le> 126 \<and> printable_ascii msg"
  by (auto simp add: printable_ascii_def ASCII_PRINTABLE_FIRST_def ASCII_PRINTABLE_LAST_def)

lemma row_text_loop_printable:
  assumes "printable_ascii msg" "row < 7"
  shows "row_text_loop get_font row msg acc = Inr (acc @ row_cells row msg)"
  using assms(1)
proof (induction msg arbitrary: acc)
  case Nil
  then show ?case by (simp add: row_cells_def)
next
  case (Cons c msg)
  from Cons.prems have c: "32 \<le> c" "c \<le> 126" and rest: "printable_ascii msg"
    by (simp_all add: printable_ascii_Cons)
  note g = glyph_lookup [OF c]
  have r: "py_index (get_font ! (c - 32)) (int row) = Inr (get_font ! (c - 32) ! row)"
    using glyph_row(1) [OF g(2) assms(2)] .
  show ?case
    using Cons.IH [OF rest] by (simp add: g(1) r row_cells_def)
qed

lemma length_row_cells:
  assumes "printable_ascii msg" "row < 7"
  shows "length (row_cells row msg) = sum_list (map glyph_columns msg) + length msg"
  using assms(1)
proof (induction msg)
  case Nil
  then show ?case by (simp add: row_cells_def)
next
  case (Cons c msg)
  from Cons.prems have c: "32 \<le> c" "c \<le> 126" and rest: "printable_ascii msg"
    by (simp_all add: printable_ascii_Cons)
  have "length (get_font ! (c - 32) ! row) = glyph_columns c"
    using glyph_row(2) [OF glyph_lookup(2) [OF c] assms(2)] by (simp add: glyph_columns_def)
  then show ?case using Cons.IH [OF rest] by (simp add: row_cells_def)
qed

lemma grid_loop_printable:
  assumes "printable_ascii msg" "\<forall>row\<in>set rows. row < 7"
  shows "grid_loop get_font msg do_invert rows grid
           = Inr (grid @ map (grid_row msg do_invert) rows)"
  using assms(2)
proof (induction rows arbitrary: grid)
  case Nil
  then show ?case by simp
next
  case (Cons row rows)
  then have "row < 7" by simp
  then show ?case
    using Cons by (simp add: row_text_loop_printable [OF assms(1)] grid_row_def)
qed

lemma build_grid_printable:
  assumes "printable_ascii msg"
  shows "build_grid get_font msg do_invert = Inr (map (grid_row msg do_invert) [0..<7])"
  by (simp add: build_grid_def grid_loop_printable [OF assms])

lemma length_grid_row:
  assumes "printable_ascii msg" "row < 7"
  shows "length (grid_row msg do_invert row) = sum_list (map glyph_columns msg) + length msg + 1"
  by (simp add: grid_row_def invert_row_def length_row_cells [OF assms])

lemma build_grid_regular:
  assumes "printable_ascii msg"
  shows "\<exists>grid. build_grid get_font msg do_invert = Inr grid
           \<and> regular grid (sum_list (map glyph_columns msg) + length msg + 1)"
  by (simp add: build_grid_printable [OF assms] regular_def list_all_iff
        length_grid_row [OF assms])

lemma regular_rows:
  assumes "regular grid C"
  shows "length grid = 7" and "\<And>row. row \<in> set grid \<Longrightarrow> length row = C"
    and "\<And>y. y < 7 \<Longrightarrow> length (grid ! y) = C"
proof -
  show len: "length grid = 7" using assms by (simp add: regular_def)
  show rows: "\<And>row. row \<in> set grid \<Longrightarrow> length row = C"
    using assms by (simp add: regular_def list_all_iff)
  show "\<And>y. y < 7 \<Longrightarrow> length (grid ! y) = C"
    using rows len by (metis nth_mem)
qed

lemma printable_Hi: "printable_ascii [72, 105, 33]"
  by (simp add: printable_ascii_def ASCII_PRINTABLE_FIRST_def ASCII_PRINTABLE_LAST_def)

text \<open>
  C3: for every message of printable ASCII characters only (0x20 to 0x7E), the grid built
  from it, inverted or not, has exactly seven rows, and all its rows have the same length.
\<close>

theorem build_grid_seven_equal_rows:
  assumes "printable_ascii msg"
  shows "\<exists>grid. build_grid get_font msg do_invert = Inr grid \<and> length grid = 7
           \<and> (\<forall>row\<in>set grid. length row = length (grid ! 0))"
proof -
  obtain grid where g: "build_grid get_font msg do_invert = Inr grid"
    and r: "regular grid (sum_list (map glyph_columns msg) + length msg + 1)"
    using build_grid_regular [OF assms] by blast
  have "length grid = 7" by (rule regular_rows(1) [OF r])
  moreover have "\<forall>row\<in>set grid. length row = length (grid ! 0)"
    using regular_rows(2) [OF r] regular_rows(3) [OF r, of 0] by simp
  ultimately show ?thesis using g by blast
qed

theorem build_grid_seven_equal_rows_witness:
  "printable_ascii [72, 105, 33] \<and>
   (\<exists>grid. build_grid get_font [72, 105, 33] True = Inr grid \<and> length grid = 7
           \<and> (\<forall>row\<in>set grid. length row = length (grid ! 0)))"
  using build_grid_seven_equal_rows [OF printable_Hi, of True] printable_Hi
  by (rule conjI [rotated])

lemma glyph_bang: "get_font ! Suc 0 = [''.'', ''#'', ''#'', ''#'', ''.'', ''#'', ''.'']"
  unfolding get_font_def font_def split_def
  by (simp add: split_from_font_chars strip_glyph_row del: split_from.simps(2))

lemma printable_bang: "printable_ascii [33]"
  by (simp add: printable_ascii_def ASCII_PRINTABLE_FIRST_def ASCII_PRINTABLE_LAST_def)

lemma upt_7: "[0..<7] = [0, 1, 2, 3, 4, 5, 6]"
  by (simp add: upt_rec)

lemma grid_bang:
  "build_grid get_font [33] False = Inr [''...'', ''.#.'', ''.#.'', ''.#.'', ''...'', ''.#.'', ''...'']"
  by (simp add: build_grid_printable [OF printable_bang] upt_7 grid_row_def row_cells_def glyph_bang)

lemma glyph_columns_bang: "glyph_columns 33 = 1"
  by (simp add: glyph_columns_def glyph_bang)

text \<open>
  C4, as the code has it: for every message of printable ASCII characters only, the number of columns
  of the grid is the sum of the column counts of the glyphs of its characters, plus the
  number of characters, plus one: a margin column on the left, and one separator column
  after each glyph.
\<close>

theorem grid_columns:
  assumes "printable_ascii msg"
  shows "\<exists>grid. build_grid get_font msg do_invert = Inr grid
           \<and> (\<forall>row\<in>set grid. length row = sum_list (map glyph_columns msg) + length msg + 1)"
proof -
  obtain grid where g: "build_grid get_font msg do_invert = Inr grid"
    and r: "regular grid (sum_list (map glyph_columns msg) + length msg + 1)"
    using build_grid_regular [OF assms] by blast
  have "\<forall>row\<in>set grid. length row = sum_list (map glyph_columns msg) + length msg + 1"
    using regular_rows(2) [OF r] by blast
  then show ?thesis using g by blast
qed

theorem grid_columns_witness:
  "printable_ascii [72, 105, 33] \<and>
   (\<exists>grid. build_grid get_font [72, 105, 33] False = Inr grid
      \<and> (\<forall>row\<in>set grid. length row
             = sum_list (map glyph_columns [72, 105, 33]) + length [72, 105, 33 :: nat] + 1))"
  using grid_columns [OF printable_Hi, of False] printable_Hi
  by (rule conjI [rotated])

theorem grid_columns_counterexample:
  "printable_ascii [33]
   \<and> build_grid get_font [33] False
       = Inr [''...'', ''.#.'', ''.#.'', ''.#.'', ''...'', ''.#.'', ''...'']
   \<and> length ''...'' = 3
   \<and> sum_list (map glyph_columns [33]) + length [33 :: nat] = 2"
  by (simp add: printable_bang grid_bang glyph_columns_bang)

section \<open>Days and cells\<close>

lemma day_cell_inverse:
  "(case day_cell d of (y, x) \<Rightarrow> x * 7 + y) = d"
  by (simp add: day_cell_def)

lemma day_cell_bij:
  "bij_betw day_cell {0..<7 * C} ({0..<7} \<times> {0..<C})"
proof (rule bij_betw_byWitness [where f' = "\<lambda>(y, x). x * 7 + y"])
  show "\<forall>d\<in>{0..<7 * C}. (case day_cell d of (y, x) \<Rightarrow> x * 7 + y) = d"
    by (simp add: day_cell_def)
  show "\<forall>p\<in>{0..<7} \<times> {0..<C}. day_cell (case p of (y, x) \<Rightarrow> x * 7 + y) = p"
    by (auto simp add: day_cell_def)
  show "day_cell ` {0..<7 * C} \<subseteq> {0..<7} \<times> {0..<C}"
    by (auto simp add: day_cell_def)
  show "(\<lambda>(y, x). x * 7 + y) ` ({0..<7} \<times> {0..<C}) \<subseteq> {0..<7 * C}"
    by auto
qed

lemma day_cell_in_grid:
  assumes "regular grid C" "d < 7 * C"
  shows "case day_cell d of (y, x) \<Rightarrow>
           py_index grid (int y) = Inr (grid ! y) \<and> py_index (grid ! y) (int x) = Inr (grid ! y ! x)"
proof -
  have y: "d mod 7 < 7" by simp
  have x: "d div 7 < C" using assms(2) by auto
  have "d mod 7 < length grid" using regular_rows(1) [OF assms(1)] by simp
  moreover have "d div 7 < length (grid ! (d mod 7))"
    using regular_rows(3) [OF assms(1) y] x by simp
  ultimately show ?thesis by (simp add: day_cell_def py_index_nat)
qed

lemma num_days_regular:
  assumes "regular grid C"
  shows "num_days_of grid = Inr (7 * C)"
proof -
  have "py_index grid 0 = Inr (grid ! 0)"
    using regular_rows(1) [OF assms] py_index_nat [of grid 0] by simp
  then show ?thesis
    using regular_rows(1) [OF assms] regular_rows(3) [OF assms, of 0]
    by (simp add: num_days_of_def)
qed

lemma day_date_inj: "day_date b d = day_date b d' \<Longrightarrow> d = d'"
proof -
  assume "day_date b d = day_date b d'"
  then have "ordinal (day_date b d) = ordinal (day_date b d')" by simp
  then show ?thesis by (simp add: day_date_def)
qed

lemma distinct_day_dates: "distinct (map (day_date b) [0..<n])"
proof -
  have "inj_on (day_date b) (set [0..<n])"
    by (rule inj_onI) (rule day_date_inj)
  then show ?thesis by (simp add: distinct_map)
qed

text \<open>
  C1: for every grid of 7 rows and \<open>C\<close> columns the calendar window has exactly \<open>7 * C\<close>
  days, one after the other, and day \<open>d\<close> \<mapsto> (row \<open>d mod 7\<close>, column \<open>d div 7\<close>) is a
  bijection between the days \<open>0 .. 7 * C - 1\<close> and the cells of the grid: every day reads
  exactly one cell, which exists, no day is skipped or mapped twice, and
  \<open>column * 7 + row\<close> gives the day back.
\<close>

theorem day_cell_bijection:
  assumes "length grid = 7" "\<forall>row\<in>set grid. length row = C"
  shows "num_days_of grid = Inr (7 * C)
       \<and> length [0..<7 * C] = 7 * C
       \<and> (\<forall>b. distinct (map (day_date b) [0..<7 * C])
              \<and> (\<forall>d<7 * C. ordinal (day_date b d) = ordinal b + int d))
       \<and> bij_betw day_cell {0..<7 * C} ({0..<7} \<times> {0..<C})
       \<and> (\<forall>d<7 * C. case day_cell d of (y, x) \<Rightarrow>
             y = d mod 7 \<and> x = d div 7 \<and> x * 7 + y = d
             \<and> py_index grid (int y) = Inr (grid ! y)
             \<and> py_index (grid ! y) (int x) = Inr (grid ! y ! x))"
proof -
  have r: "regular grid C" using assms by (simp add: regular_def list_all_iff)
  have cells: "\<forall>d<7 * C. case day_cell d of (y, x) \<Rightarrow>
             y = d mod 7 \<and> x = d div 7 \<and> x * 7 + y = d
             \<and> py_index grid (int y) = Inr (grid ! y)
             \<and> py_index (grid ! y) (int x) = Inr (grid ! y ! x)"
  proof (intro allI impI)
    fix d assume "d < 7 * C"
    from day_cell_in_grid [OF r this] show "case day_cell d of (y, x) \<Rightarrow>
             y = d mod 7 \<and> x = d div 7 \<and> x * 7 + y = d
             \<and> py_index grid (int y) = Inr (grid ! y)
             \<and> py_index (grid ! y) (int x) = Inr (grid ! y ! x)"
      by (simp add: day_cell_def)
  qed
  have dates: "\<forall>b. distinct (map (day_date b) [0..<7 * C])
              \<and> (\<forall>d<7 * C. ordinal (day_date b d) = ordinal b + int d)"
    using distinct_day_dates by (simp add: day_date_def)
  show ?thesis
    using cells dates num_days_regular [OF r] day_cell_bij [of C] by simp
qed

theorem day_cell_bijection_witness:
  "length [''...'', ''.#.'', ''.#.'', ''.#.'', ''...'', ''.#.'', ''...''] = 7
   \<and> list_all (\<lambda>row. length row = 3)
         [''...'', ''.#.'', ''.#.'', ''.#.'', ''...'', ''.#.'', ''...'']
   \<and> num_days_of [''...'', ''.#.'', ''.#.'', ''.#.'', ''...'', ''.#.'', ''...''] = Inr (7 * 3)
   \<and> bij_betw day_cell {0..<7 * 3} ({0..<7} \<times> {0..<3})"
  using day_cell_bijection [of "[''...'', ''.#.'', ''.#.'', ''.#.'', ''...'', ''.#.'', ''...'']" 3]
  by simp

section \<open>The beginning of the window\<close>

lemma compute_beginning_ordinal:
  "compute_beginning dt =
     (if 7 \<le> ordinal dt \<and> ordinal dt - ordinal dt mod 7 \<le> MAXORDINAL
      then Inr ((noon dt)\<lparr>ordinal := ordinal dt - ordinal dt mod 7\<rparr>) else Inl OverflowError)"
proof -
  have "(weekday (noon dt) + 1) mod 7 = ordinal dt mod 7"
    by (simp add: weekday_def noon_def mod_simps)
  moreover have "0 < ordinal dt - ordinal dt mod 7 \<longleftrightarrow> 7 \<le> ordinal dt"
    by presburger
  ultimately show ?thesis
    by (simp add: compute_beginning_def add_days_def noon_def Let_def)
qed

text \<open>
  C2, as the code has it: the start date is set to noon with no fractional seconds and moved back by
  its index in a week that starts on Sunday.  For every start date from 0001-01-07 on,
  the beginning of the window (day 0) is a Sunday at 12:00:00, the most recent one on or
  before the start date.  For the six dates before, 0001-01-01 to 0001-01-06, that Sunday
  is no date a \<open>datetime\<close> can hold, and the run stops with \<open>OverflowError\<close>.
\<close>

theorem beginning_is_sunday:
  assumes "1 \<le> ordinal dt" "ordinal dt \<le> MAXORDINAL"
  shows "(ordinal dt < 7 \<longrightarrow> compute_beginning dt = Inl OverflowError)
       \<and> (7 \<le> ordinal dt \<longrightarrow>
            (\<exists>b. compute_beginning dt = Inr b \<and> add_days b 0 = Inr b
               \<and> weekday b = 6 \<and> start_of_week_index b = 0
               \<and> hour b = 12 \<and> minute b = 0 \<and> second b = 0 \<and> microsecond b = 0
               \<and> tzinfo b = tzinfo dt
               \<and> ordinal b = ordinal dt - start_of_week_index (noon dt)
               \<and> ordinal b \<le> ordinal dt \<and> ordinal dt < ordinal b + 7))"
proof -
  let ?b = "(noon dt)\<lparr>ordinal := ordinal dt - ordinal dt mod 7\<rparr>"
  have le: "ordinal dt - ordinal dt mod 7 \<le> MAXORDINAL"
    using assms(2) pos_mod_sign [of 7 "ordinal dt"] by linarith
  have sw: "start_of_week_index (noon dt) = ordinal dt mod 7"
    by (simp add: start_of_week_index_def weekday_def noon_def mod_simps)
  have m6: "(ordinal dt - ordinal dt mod 7 + 6) mod 7 = 6"
    by presburger
  have wb: "weekday ?b = 6" by (simp add: weekday_def m6)
  have sb: "start_of_week_index ?b = 0" by (simp add: start_of_week_index_def wb)
  have pos: "7 \<le> ordinal dt \<Longrightarrow> 0 < ordinal dt - ordinal dt mod 7"
    by presburger
  have a0: "7 \<le> ordinal dt \<Longrightarrow> add_days ?b 0 = Inr ?b"
    using le pos by (simp add: add_days_def)
  have fields: "hour ?b = 12 \<and> minute ?b = 0 \<and> second ?b = 0 \<and> microsecond ?b = 0
      \<and> tzinfo ?b = tzinfo dt \<and> ordinal ?b = ordinal dt - start_of_week_index (noon dt)
      \<and> ordinal ?b \<le> ordinal dt \<and> ordinal dt < ordinal ?b + 7"
    unfolding sw by (simp add: noon_def)
  have early: "ordinal dt < 7 \<longrightarrow> compute_beginning dt = Inl OverflowError"
    by (simp add: compute_beginning_ordinal)
  have late: "7 \<le> ordinal dt \<longrightarrow> compute_beginning dt = Inr ?b"
    using le by (simp add: compute_beginning_ordinal)
  show ?thesis using early late a0 wb sb fields by blast
qed

theorem beginning_is_sunday_witness:
  "1 \<le> ordinal tuesday_2023_01_03 \<and> ordinal tuesday_2023_01_03 \<le> MAXORDINAL
   \<and> 7 \<le> ordinal tuesday_2023_01_03
   \<and> (\<exists>b. compute_beginning tuesday_2023_01_03 = Inr b \<and> weekday b = 6 \<and> hour b = 12
         \<and> ordinal b = 738521)"
  using beginning_is_sunday [of tuesday_2023_01_03]
  by (auto simp add: tuesday_2023_01_03_def MAXORDINAL_def start_of_week_index_def weekday_def
        noon_def)

theorem beginning_first_week_counterexample:
  "1 \<le> ordinal monday_0001_01_01 \<and> ordinal monday_0001_01_01 \<le> MAXORDINAL
   \<and> compute_beginning monday_0001_01_01 = Inl OverflowError"
  by (simp add: monday_0001_01_01_def compute_beginning_def add_days_def noon_def weekday_def
        MAXORDINAL_def)

section \<open>The progress bar\<close>

lemma upt_25: "[0..<25] = [0,1,2,3,4,5,6,7,8,9,10,11,12,13,14,15,16,17,18,19,20,21,22,23,24]"
  by (simp add: upt_rec)

text \<open>
  C6, as the code has it: at 0 percent the progress text is \<open>[=                        ] 0%\<close>, the
  first of the 25 slots filled and 24 spaces after it, and at 100 percent it is
  \<open>[=========================] 100%\<close>, all 25 slots filled.
\<close>

theorem progress_0_and_100:
  "progress 0 = ''[=                        ] 0%''
   \<and> progress 100 = ''[=========================] 100%''"
  by (simp add: progress_def upt_25 py_int_def str_int_def str_nat.simps digit_char_def)

theorem progress_0_counterexample:
  "progress 0 \<noteq> ''[                         ] 0%''"
  by (simp add: progress_def upt_25 py_int_def str_int_def str_nat.simps digit_char_def)

section \<open>Hexadecimal reports\<close>

lemma hex_digit_value_hex_char: "d < 16 \<Longrightarrow> hex_digit_value (hex_char d) = d"
proof -
  assume "d < 16"
  then have d: "d \<in> set [0..<16]" by simp
  have "\<forall>d\<in>set [0..<16]. hex_digit_value (hex_char d) = d"
    by (simp add: upt_rec hex_digit_value_def hex_char_def)
  then show ?thesis using d by (rule bspec)
qed

lemma hex_char_upper: "d < 16 \<Longrightarrow> hex_char d \<in> set ''0123456789ABCDEF''"
  unfolding hex_char_def by (rule nth_mem) simp

lemma hex_value_snoc: "hex_value (s @ [c]) = 16 * hex_value s + hex_digit_value c"
  by (simp add: hex_value_def)

lemma hex_value_hex_nat: "hex_value (hex_nat n) = n"
proof (induction n rule: hex_nat.induct)
  case (1 n)
  show ?case
  proof (cases "n < 16")
    case True
    then show ?thesis
      by (simp add: hex_nat.simps [of n] hex_value_def hex_digit_value_hex_char)
  next
    case False
    then show ?thesis
      using "1.IH" by (simp add: hex_nat.simps [of n] hex_value_snoc hex_digit_value_hex_char)
  qed
qed

lemma set_hex_nat: "set (hex_nat n) \<subseteq> set ''0123456789ABCDEF''"
proof (induction n rule: hex_nat.induct)
  case (1 n)
  show ?case
  proof (cases "n < 16")
    case True
    then show ?thesis
      using hex_char_upper [of n] by (simp add: hex_nat.simps [of n])
  next
    case False
    then show ?thesis
      using "1.IH" hex_char_upper [of "n mod 16"] by (simp add: hex_nat.simps [of n])
  qed
qed

lemma length_hex_nat_pos: "0 < length (hex_nat n)"
  by (simp add: hex_nat.simps [of n])

lemma length_hex_nat_small: "n < 16 \<Longrightarrow> length (hex_nat n) = 1"
  by (simp add: hex_nat.simps [of n])

lemma length_hex_nat_byte: "16 \<le> n \<Longrightarrow> n < 256 \<Longrightarrow> length (hex_nat n) = 2"
  by (simp add: hex_nat.simps [of n] length_hex_nat_small)

lemma length_hex_nat_wide: "256 \<le> n \<Longrightarrow> 3 \<le> length (hex_nat n)"
proof -
  assume n: "256 \<le> n"
  then have "16 \<le> n div 16" by simp
  then have "2 \<le> length (hex_nat (n div 16))"
    using length_hex_nat_pos [of "n div 16 div 16"]
    by (simp add: hex_nat.simps [of "n div 16"] Suc_le_eq)
  then show ?thesis using n by (simp add: hex_nat.simps [of n])
qed

lemma hex_value_zeros: "hex_value (replicate k CHR ''0'' @ s) = hex_value s"
  by (induction k) (simp_all add: hex_value_def hex_digit_value_def)

lemma format_02X_props:
  "hex_value (format_02X c) = c"
  "2 \<le> length (format_02X c)"
  "c < 256 \<Longrightarrow> length (format_02X c) = 2"
  "256 \<le> c \<Longrightarrow> 3 \<le> length (format_02X c)"
  "set (format_02X c) \<subseteq> set ''0123456789ABCDEF''"
proof -
  show "hex_value (format_02X c) = c"
    by (simp add: format_02X_def Let_def hex_value_zeros hex_value_hex_nat)
  show "2 \<le> length (format_02X c)"
    using length_hex_nat_pos [of c] by (simp add: format_02X_def Let_def)
  show "c < 256 \<Longrightarrow> length (format_02X c) = 2"
    using length_hex_nat_small [of c] length_hex_nat_byte [of c]
    by (cases "c < 16") (simp_all add: format_02X_def Let_def)
  show "256 \<le> c \<Longrightarrow> 3 \<le> length (format_02X c)"
    using length_hex_nat_wide [of c] by (simp add: format_02X_def Let_def)
  show "set (format_02X c) \<subseteq> set ''0123456789ABCDEF''"
    using set_hex_nat [of c] by (auto simp add: format_02X_def Let_def)
qed

lemma format_02X_examples: "format_02X 7 = ''07''" "format_02X 8364 = ''20AC''"
  by (simp_all add: format_02X_def Let_def hex_nat.simps hex_char_def)

lemma not_printable_invalid:
  "\<not> printable_ascii msg \<Longrightarrow> msg \<noteq> [] \<and> invalid_chars msg \<noteq> []"
  by (induction msg)
     (auto simp add: printable_ascii_def invalid_chars_def)

lemma printable_invalid: "printable_ascii msg \<Longrightarrow> invalid_chars msg = []"
  by (induction msg)
     (auto simp add: printable_ascii_def invalid_chars_def)

lemma invalid_chars_filter:
  "invalid_chars msg = map (\<lambda>c. ''0x'' @ format_02X c) (filter (\<lambda>c. c < 32 \<or> 126 < c) msg)"
proof -
  have "(\<lambda>digit. int digit < ASCII_PRINTABLE_FIRST \<or> int digit > ASCII_PRINTABLE_LAST)
          = (\<lambda>c. c < 32 \<or> 126 < c)"
    by (auto simp add: ASCII_PRINTABLE_FIRST_def ASCII_PRINTABLE_LAST_def)
  then show ?thesis by (simp add: invalid_chars_def)
qed

section \<open>Rejected command lines\<close>

text \<open>
  C7, as the code has it: for every message with a character outside the printable ASCII range
  (0x20 to 0x7E) the run prints the usage and one error message, exits with status 1, and
  does nothing else: no commit is created.  When the commit bounds pass their own checks,
  which come first, the error message lists every such character, in order and separated
  by spaces, as \<open>0x\<close> and its code point in upper-case hexadecimal, padded with zeros to
  at least two digits: exactly two digits for a code point up to 0xFF (0x07), more for a
  larger one (0x20AC).
\<close>

theorem invalid_message_rejected:
  assumes "\<not> printable_ascii (join [32] (message a))"
  shows "snd (main rng launch a) = SysExit 1
       \<and> (\<exists>text. fst (main rng launch a) = [PrintUsage, Eprint text])
       \<and> commit_dates (fst (main rng launch a)) = []
       \<and> (0 \<le> min_commits a \<and> 1 \<le> max_commits a \<and> min_commits a \<le> max_commits a \<longrightarrow>
            fst (main rng launch a) =
              [PrintUsage,
               Eprint (''Unsupported characters in message: ''
                 @ join '' '' (map (\<lambda>c. ''0x'' @ format_02X c)
                                (filter (\<lambda>c. c < 32 \<or> 126 < c) (join [32] (message a)))))])
       \<and> (\<forall>c. hex_value (format_02X c) = c \<and> set (format_02X c) \<subseteq> set ''0123456789ABCDEF''
              \<and> 2 \<le> length (format_02X c) \<and> (c < 256 \<longrightarrow> length (format_02X c) = 2)
              \<and> (256 \<le> c \<longrightarrow> 3 \<le> length (format_02X c)))"
proof -
  note bad = not_printable_invalid [OF assms]
  have exit: "snd (main rng launch a) = SysExit 1"
    using bad by (simp add: main_def Let_def)
  have evs: "\<exists>text. fst (main rng launch a) = [PrintUsage, Eprint text]"
    using bad by (simp add: main_def Let_def)
  then have none: "commit_dates (fst (main rng launch a)) = []" by auto
  have report: "0 \<le> min_commits a \<and> 1 \<le> max_commits a \<and> min_commits a \<le> max_commits a \<longrightarrow>
            fst (main rng launch a) =
              [PrintUsage,
               Eprint (''Unsupported characters in message: ''
                 @ join '' '' (map (\<lambda>c. ''0x'' @ format_02X c)
                                (filter (\<lambda>c. c < 32 \<or> 126 < c) (join [32] (message a)))))]"
    using bad by (simp add: main_def Let_def invalid_chars_filter)
  show ?thesis using exit evs none report format_02X_props by blast
qed

theorem invalid_message_rejected_witness:
  "\<not> printable_ascii (join [32] (message args_bell))
   \<and> main id git_found args_bell
       = ([PrintUsage, Eprint ''Unsupported characters in message: 0x07''], SysExit 1)"
proof -
  have bad: "\<not> printable_ascii (join [32] (message args_bell))"
    by (simp add: args_bell_def printable_ascii_def ASCII_PRINTABLE_FIRST_def)
  have "main id git_found args_bell
       = ([PrintUsage, Eprint ''Unsupported characters in message: 0x07''], SysExit 1)"
    using invalid_message_rejected [OF bad, of id git_found]
    by (simp add: args_bell_def prod_eq_iff format_02X_def hex_nat.simps hex_char_def)
  then show ?thesis using bad by simp
qed

theorem invalid_message_counterexample:
  "\<not> printable_ascii (join [32] (message args_euro))
   \<and> main id git_found args_euro
       = ([PrintUsage, Eprint ''Unsupported characters in message: 0x20AC''], SysExit 1)
   \<and> format_02X 8364 = ''20AC'' \<and> length (format_02X 8364) \<noteq> 2"
  by (simp add: args_euro_def printable_ascii_def ASCII_PRINTABLE_FIRST_def
        ASCII_PRINTABLE_LAST_def main_def invalid_chars_def format_02X_def hex_nat.simps
        hex_char_def)

text \<open>
  C8, as the code has it: for every message that is not empty and every pair of commit
  bounds with \<open>min < 0\<close>, \<open>max < 1\<close> or \<open>min > max\<close> the run is rejected: it prints the
  usage and one error message, and exits with status 1, without a commit.  The message is
  \<open>MIN_COMMITS must be at least 0\<close>, else \<open>MAX_COMMITS must be at least 1\<close>, else
  \<open>MIN_COMMITS (min) cannot be more than MAX_COMMITS (max)\<close> with both numbers.  A run
  whose message is empty is rejected in the same way before the bounds are looked at, and
  its error message is \<open>Empty message is invalid\<close>.
\<close>

theorem invalid_bounds_rejected:
  assumes "min_commits a < 0 \<or> max_commits a < 1 \<or> min_commits a > max_commits a"
  shows "snd (main rng launch a) = SysExit 1
       \<and> (\<exists>text. fst (main rng launch a) = [PrintUsage, Eprint text])
       \<and> commit_dates (fst (main rng launch a)) = []
       \<and> (join [32] (message a) \<noteq> [] \<longrightarrow>
            fst (main rng launch a) =
              [PrintUsage,
               Eprint (if min_commits a < 0 then ''MIN_COMMITS must be at least 0''
                       else if max_commits a < 1 then ''MAX_COMMITS must be at least 1''
                       else ''MIN_COMMITS ('' @ str_int (min_commits a)
                              @ '') cannot be more than MAX_COMMITS (''
                              @ str_int (max_commits a) @ '')'')])
       \<and> (join [32] (message a) = [] \<longrightarrow>
            fst (main rng launch a) = [PrintUsage, Eprint ''Empty message is invalid''])"
proof -
  have exit: "snd (main rng launch a) = SysExit 1"
    using assms by (auto simp add: main_def Let_def)
  have evs: "\<exists>text. fst (main rng launch a) = [PrintUsage, Eprint text]"
    using assms by (auto simp add: main_def Let_def)
  then have none: "commit_dates (fst (main rng launch a)) = []" by auto
  have named: "join [32] (message a) \<noteq> [] \<longrightarrow>
            fst (main rng launch a) =
              [PrintUsage,
               Eprint (if min_commits a < 0 then ''MIN_COMMITS must be at least 0''
                       else if max_commits a < 1 then ''MAX_COMMITS must be at least 1''
                       else ''MIN_COMMITS ('' @ str_int (min_commits a)
                              @ '') cannot be more than MAX_COMMITS (''
                              @ str_int (max_commits a) @ '')'')]"
    using assms by (auto simp add: main_def Let_def)
  have empty: "join [32] (message a) = [] \<longrightarrow>
            fst (main rng launch a) = [PrintUsage, Eprint ''Empty message is invalid'']"
    by (simp add: main_def Let_def)
  show ?thesis using exit evs none named empty by blast
qed

theorem invalid_bounds_rejected_witness:
  "(min_commits args_10_5 < 0 \<or> max_commits args_10_5 < 1
      \<or> min_commits args_10_5 > max_commits args_10_5)
   \<and> join [32] (message args_10_5) \<noteq> []
   \<and> main id git_found args_10_5
       = ([PrintUsage, Eprint ''MIN_COMMITS (10) cannot be more than MAX_COMMITS (5)''],
          SysExit 1)"
proof -
  have bad: "min_commits args_10_5 < 0 \<or> max_commits args_10_5 < 1
      \<or> min_commits args_10_5 > max_commits args_10_5"
    by (simp add: args_10_5_def)
  have "main id git_found args_10_5
       = ([PrintUsage, Eprint ''MIN_COMMITS (10) cannot be more than MAX_COMMITS (5)''],
          SysExit 1)"
    using invalid_bounds_rejected [OF bad, of id git_found]
    by (simp add: args_10_5_def prod_eq_iff str_int_def str_nat.simps digit_char_def)
  then show ?thesis using bad by (simp add: args_10_5_def)
qed

theorem invalid_bounds_counterexample:
  "min_commits args_empty_minus_1 < 0
   \<and> main id git_found args_empty_minus_1 = ([PrintUsage, Eprint ''Empty message is invalid''], SysExit 1)"
  by (simp add: args_empty_minus_1_def main_def)

section \<open>The loop over the days\<close>

lemma commit_dates_append: "commit_dates (xs @ ys) = commit_dates xs @ commit_dates ys"
  by (induction xs rule: commit_dates.induct) simp_all

lemma commit_dates_commits: "commit_dates (replicate n (GitCommit d)) = replicate n d"
  by (induction n) simp_all

lemma commit_dates_prints: "commit_dates (replicate n (Print s)) = []"
  by (induction n) simp_all

lemma commit_dates_preview: "commit_dates (preview_cell a y x c) = []"
  by (simp add: preview_cell_def cursor_up_def cursor_down_def cursor_right_def
        commit_dates_append)

lemma grid_reads:
  assumes "regular grid C" "d < 7 * C"
  shows "py_index grid (int (d mod 7)) = Inr (grid ! (d mod 7))"
    and "py_index (grid ! (d mod 7)) (int (d div 7)) = Inr (grid ! (d mod 7) ! (d div 7))"
  using day_cell_in_grid [OF assms] by (simp_all add: day_cell_def)

lemma add_days_day:
  "0 < ordinal b \<Longrightarrow> ordinal b + int day \<le> MAXORDINAL
     \<Longrightarrow> add_days b (int day) = Inr (day_date b day)"
  by (simp add: add_days_def day_date_def)

subsection \<open>Calls that return and calls that raise\<close>

lemma launched_le: "launched launch c n \<le> n"
  by (induction n arbitrary: c) (simp_all split: option.splits)

lemma launched_all: "\<forall>i. launch i = None \<Longrightarrow> launched launch c n = n"
  by (induction n arbitrary: c) simp_all

lemma launched_stop: "launched launch c n \<noteq> n \<Longrightarrow> launch (c + launched launch c n) \<noteq> None"
proof (induction n arbitrary: c)
  case 0
  then show ?case by simp
next
  case (Suc n)
  show ?case
  proof (cases "launch c")
    case None
    with Suc.prems have "launched launch (Suc c) n \<noteq> n" by simp
    then have "launch (Suc c + launched launch (Suc c) n) \<noteq> None" by (rule Suc.IH)
    then show ?thesis using None by simp
  next
    case (Some e)
    then show ?thesis by simp
  qed
qed

lemma launched_add:
  "launched launch c (n1 + n2) =
     (if launched launch c n1 = n1 then n1 + launched launch (c + n1) n2
      else launched launch c n1)"
  by (induction n1 arbitrary: c) (simp_all split: option.splits)

lemma launch_error_None: "launch_error launch c n = None \<longleftrightarrow> launched launch c n = n"
  using launched_stop [of launch c n] by (auto simp add: launch_error_def)

lemma launch_error_add:
  "launch_error launch c (n1 + n2) =
     (if launched launch c n1 = n1 then launch_error launch (c + n1) n2
      else launch_error launch c n1)"
proof (cases "launched launch c n1 = n1")
  case True
  then show ?thesis by (simp add: launch_error_def launched_add add.assoc)
next
  case False
  have "launched launch c n1 \<le> n1" by (rule launched_le)
  with False have "launched launch c n1 \<noteq> n1 + n2" by simp
  with False show ?thesis by (simp add: launch_error_def launched_add)
qed

lemma launch_error_all: "\<forall>i. launch i = None \<Longrightarrow> launch_error launch c n = None"
  by (simp add: launch_error_None launched_all)

lemma commit_loop_calls:
  "commit_loop launch d n c =
     (replicate (launched launch c n) (GitCommit d),
      case launch_error launch c n of None \<Rightarrow> Inr (c + n) | Some e \<Rightarrow> Inl (OSError e))"
proof (induction n arbitrary: c)
  case 0
  then show ?case by (simp add: launch_error_def)
next
  case (Suc n)
  show ?case
  proof (cases "launch c")
    case None
    have "launch_error launch c (Suc n) = launch_error launch (Suc c) n"
      using None by (simp add: launch_error_def)
    then show ?thesis using None Suc.IH [of "Suc c"] by (simp split: option.splits)
  next
    case (Some e)
    then show ?thesis by (simp add: launch_error_def)
  qed
qed

lemma commit_day_valid:
  assumes "min_commits a \<le> max_commits a"
  shows "commit_day a rng launch d k c =
           (if dry_run a then ([Sleep], Inr (k, c))
            else (replicate (launched launch c (nat (num_commits a rng k))) (GitCommit d),
                  case launch_error launch c (nat (num_commits a rng k)) of
                    None \<Rightarrow> Inr (Suc k, c + nat (num_commits a rng k))
                  | Some e \<Rightarrow> Inl (OSError e)))"
  using assms
  by (simp add: commit_day_def randrange_def num_commits_def Let_def commit_loop_calls
        split: option.splits)

lemma day_body_valid:
  assumes "regular grid C" "day < 7 * C" "0 < ordinal b" "ordinal b + int day \<le> MAXORDINAL"
    "min_commits a \<le> max_commits a"
  shows "\<exists>evs. day_body a rng launch grid b n day k c
                 = (evs,
                    if cell_on grid day \<and> \<not> dry_run a
                    then (case launch_error launch c (nat (num_commits a rng k)) of
                            None \<Rightarrow> Inr (Suc k, c + nat (num_commits a rng k))
                          | Some e \<Rightarrow> Inl (OSError e))
                    else Inr (k, c))
             \<and> commit_dates evs
                 = (if cell_on grid day \<and> \<not> dry_run a
                    then replicate (launched launch c (nat (num_commits a rng k))) (day_date b day)
                    else [])"
  by (simp add: day_body_def day_cell_def grid_reads [OF assms(1,2)]
        add_days_day [OF assms(3,4)] commit_day_valid [OF assms(5)] cell_on_def Let_def
        commit_dates_append commit_dates_commits commit_dates_preview
        split: option.splits)

lemma day_loop_valid:
  assumes "regular grid C" "0 < ordinal b" "min_commits a \<le> max_commits a"
    "\<forall>day\<in>set days. day < 7 * C \<and> ordinal b + int day \<le> MAXORDINAL"
  shows "\<exists>evs. day_loop a rng launch grid b n days k c
                 = (evs,
                    if dry_run a then None
                    else map_option OSError
                      (launch_error launch c
                        (length (batches a rng k (map (day_date b) (filter (cell_on grid) days))))))
             \<and> commit_dates evs
                 = (if dry_run a then []
                    else take
                      (launched launch c
                        (length (batches a rng k (map (day_date b) (filter (cell_on grid) days)))))
                      (batches a rng k (map (day_date b) (filter (cell_on grid) days))))"
  using assms(4)
proof (induction days arbitrary: k c)
  case Nil
  then show ?case by (simp add: launch_error_def)
next
  case (Cons day days)
  from Cons.prems have d: "day < 7 * C" "ordinal b + int day \<le> MAXORDINAL"
    and rest: "\<forall>day\<in>set days. day < 7 * C \<and> ordinal b + int day \<le> MAXORDINAL"
    by simp_all
  note body = day_body_valid [OF assms(1) d(1) assms(2) d(2) assms(3), of rng launch n k c]
  let ?m = "nat (num_commits a rng k)"
  let ?rest = "\<lambda>k. batches a rng k (map (day_date b) (filter (cell_on grid) days))"
  show ?case
  proof (cases "cell_on grid day \<and> \<not> dry_run a")
    case False
    then obtain evs where b1: "day_body a rng launch grid b n day k c = (evs, Inr (k, c))"
      and c1: "commit_dates evs = []"
      using body by auto
    obtain evs' where l1: "day_loop a rng launch grid b n days k c
                 = (evs', if dry_run a then None
                          else map_option OSError (launch_error launch c (length (?rest k))))"
      and c2: "commit_dates evs'
                 = (if dry_run a then []
                    else take (launched launch c (length (?rest k))) (?rest k))"
      using Cons.IH [OF rest, of k c] by blast
    have "day_loop a rng launch grid b n (day # days) k c
            = (evs @ evs', if dry_run a then None
                          else map_option OSError (launch_error launch c (length (?rest k))))"
      by (simp add: b1 l1)
    moreover have "commit_dates (evs @ evs')
                 = (if dry_run a then []
                    else take (launched launch c (length (?rest k))) (?rest k))"
      by (simp add: commit_dates_append c1 c2)
    ultimately show ?thesis using False by auto
  next
    case True
    then have on: "cell_on grid day" and wet: "\<not> dry_run a" by simp_all
    have B: "batches a rng k (map (day_date b) (filter (cell_on grid) (day # days)))
               = replicate ?m (day_date b day) @ ?rest (Suc k)"
      using on by simp
    show ?thesis
    proof (cases "launched launch c ?m = ?m")
      case all: True
      then have none: "launch_error launch c ?m = None" by (simp add: launch_error_None)
      obtain evs where b1: "day_body a rng launch grid b n day k c = (evs, Inr (Suc k, c + ?m))"
        and c1: "commit_dates evs = replicate ?m (day_date b day)"
        using body True none all by auto
      obtain evs' where l1: "day_loop a rng launch grid b n days (Suc k) (c + ?m)
                 = (evs', map_option OSError (launch_error launch (c + ?m) (length (?rest (Suc k)))))"
        and c2: "commit_dates evs'
                 = take (launched launch (c + ?m) (length (?rest (Suc k)))) (?rest (Suc k))"
        using Cons.IH [OF rest, of "Suc k" "c + ?m"] wet by auto
      have "day_loop a rng launch grid b n (day # days) k c
              = (evs @ evs',
                 map_option OSError (launch_error launch (c + ?m) (length (?rest (Suc k)))))"
        by (simp add: b1 l1)
      moreover have "commit_dates (evs @ evs')
              = replicate ?m (day_date b day)
                  @ take (launched launch (c + ?m) (length (?rest (Suc k)))) (?rest (Suc k))"
        by (simp add: commit_dates_append c1 c2)
      ultimately show ?thesis
        unfolding B using wet all by (simp add: launch_error_add launched_add)
    next
      case some: False
      then obtain e where err: "launch_error launch c ?m = Some e"
        using launch_error_None [of launch c ?m] by auto
      have le: "launched launch c ?m \<le> ?m" by (rule launched_le)
      obtain evs where b1: "day_body a rng launch grid b n day k c = (evs, Inl (OSError e))"
        and c1: "commit_dates evs = replicate (launched launch c ?m) (day_date b day)"
        using body True err by auto
      have "day_loop a rng launch grid b n (day # days) k c = (evs, Some (OSError e))"
        by (simp add: b1)
      then show ?thesis
        unfolding B using wet some err le c1
        by (simp add: launch_error_add launched_add min_def)
    qed
  qed
qed

lemma add_days_Inr:
  "add_days dt k = Inr b \<Longrightarrow> 0 < ordinal dt + k \<and> ordinal dt + k \<le> MAXORDINAL
     \<and> ordinal b = ordinal dt + k"
  by (auto simp add: add_days_def Let_def split: if_splits)

lemma compute_beginning_Inr:
  "compute_beginning dt = Inr b \<Longrightarrow> 0 < ordinal b \<and> ordinal b \<le> MAXORDINAL"
  unfolding compute_beginning_def Let_def by (drule add_days_Inr) simp

lemma schedule_valid:
  assumes "regular grid C" "0 < C" "min_commits a \<le> max_commits a"
  shows "case plan grid (start a) of
           Inl e \<Rightarrow> schedule a rng launch grid = ([], Raised e)
         | Inr ds \<Rightarrow>
             (\<exists>evs. schedule a rng launch grid
                      = (evs, case stopped a rng launch ds of
                                None \<Rightarrow> Returned | Some e \<Rightarrow> Raised (OSError e))
                \<and> commit_dates evs = created a rng launch ds)"
proof (cases "start a")
  case None
  then show ?thesis by (simp add: plan_def schedule_def num_days_regular [OF assms(1)])
next
  case (Some dt)
  note n = num_days_regular [OF assms(1)]
  have len: "length grid * length (grid ! 0) = 7 * C"
    using regular_rows(1) [OF assms(1)] regular_rows(3) [OF assms(1), of 0] by simp
  show ?thesis
  proof (cases "compute_beginning dt")
    case (Inl e)
    then show ?thesis by (simp add: plan_def schedule_def n Some)
  next
    case (Inr b)
    note b = compute_beginning_Inr [OF Inr]
    show ?thesis
    proof (cases "add_days b (int (7 * C) - 1)")
      case (Inl e)
      then show ?thesis using Inr by (simp add: plan_def schedule_def n Some len)
    next
      case end_date: (Inr e)
      from add_days_Inr [OF end_date] have last: "ordinal b + (int (7 * C) - 1) \<le> MAXORDINAL"
        by simp
      have days: "\<forall>day\<in>set [0..<7 * C]. day < 7 * C \<and> ordinal b + int day \<le> MAXORDINAL"
        using last by auto
      let ?ds = "map (day_date b) (on_days grid)"
      have ds: "map (day_date b) (filter (cell_on grid) [0..<7 * C]) = ?ds"
        by (simp add: on_days_def len)
      obtain evs where loop: "day_loop a rng launch grid b (7 * C) [0..<7 * C] 0 0
                 = (evs, map_option OSError (stopped a rng launch ?ds))"
        and cd: "commit_dates evs = created a rng launch ?ds"
        using day_loop_valid [OF assms(1) conjunct1 [OF b] assms(3) days, of rng launch "7 * C" 0 0]
        unfolding ds by (auto simp add: created_def stopped_def)
      have p: "plan grid (start a) = Inr ?ds"
        using Inr end_date by (simp add: plan_def Some len)
      have "\<exists>evs'. schedule a rng launch grid
                    = (evs', case stopped a rng launch ?ds of
                               None \<Rightarrow> Returned | Some e \<Rightarrow> Raised (OSError e))
                 \<and> commit_dates evs' = commit_dates evs"
        using Inr end_date loop assms(2)
        by (cases "stopped a rng launch ?ds")
           (simp_all add: schedule_def n Some Let_def commit_dates_append commit_dates_prints)
      then show ?thesis
        using cd by (simp add: p)
    qed
  qed
qed

lemma main_valid:
  assumes "join [32] (message a) \<noteq> []" "printable_ascii (join [32] (message a))"
    "0 \<le> min_commits a" "1 \<le> max_commits a" "min_commits a \<le> max_commits a"
  shows "case planned (message a) (invert a) (start a) of
           Inl e \<Rightarrow> main rng launch a = ([], Raised e)
         | Inr ds \<Rightarrow>
             (\<exists>evs. main rng launch a
                      = (evs, case stopped a rng launch ds of
                                None \<Rightarrow> Returned | Some e \<Rightarrow> Raised (OSError e))
                \<and> commit_dates evs = created a rng launch ds)"
proof -
  obtain grid where g: "build_grid get_font (join [32] (message a)) (invert a) = Inr grid"
    and r: "regular grid (sum_list (map glyph_columns (join [32] (message a)))
                           + length (join [32] (message a)) + 1)"
    using build_grid_regular [OF assms(2)] by blast
  have m: "main rng launch a = schedule a rng launch grid"
    using assms g by (simp add: main_def Let_def printable_invalid)
  have p: "planned (message a) (invert a) (start a) = plan grid (start a)"
    by (simp add: planned_def g)
  show ?thesis
    unfolding m p by (rule schedule_valid [OF r _ assms(5)]) simp
qed

lemma created_all:
  "\<forall>c. launch c = None \<Longrightarrow>
     created a rng launch ds = (if dry_run a then [] else batches a rng 0 ds)"
  by (simp add: created_def launched_all)

lemma stopped_all: "\<forall>c. launch c = None \<Longrightarrow> stopped a rng launch ds = None"
  by (simp add: stopped_def launch_error_all)

lemma launched_missing: "launched git_missing c n = 0"
  by (cases n) (simp_all add: git_missing_def)

lemma created_missing: "created a rng git_missing ds = []"
  by (simp add: created_def launched_missing)

lemma stopped_missing:
  "stopped a rng git_missing ds =
     (if dry_run a \<or> batches a rng 0 ds = [] then None else Some FileNotFoundError)"
  by (simp add: stopped_def launch_error_def launched_missing git_missing_def)

lemma planned_valid:
  assumes "printable_ascii (join [32] ws)" "7 \<le> ordinal dt"
    "ordinal dt - ordinal dt mod 7
       + 7 * int (sum_list (map glyph_columns (join [32] ws)) + length (join [32] ws) + 1) - 1
     \<le> MAXORDINAL"
  shows "\<exists>grid b. build_grid get_font (join [32] ws) do_invert = Inr grid
           \<and> compute_beginning dt = Inr b
           \<and> planned ws do_invert (Some dt) = Inr (map (day_date b) (on_days grid))"
proof -
  let ?msg = "join [32] ws"
  let ?C = "sum_list (map glyph_columns ?msg) + length ?msg + 1"
  obtain grid where g: "build_grid get_font ?msg do_invert = Inr grid"
    and r: "regular grid ?C"
    using build_grid_regular [OF assms(1)] by blast
  have len: "length grid * length (grid ! 0) = 7 * ?C"
    using regular_rows(1) [OF r] regular_rows(3) [OF r, of 0] by simp
  let ?b = "(noon dt)\<lparr>ordinal := ordinal dt - ordinal dt mod 7\<rparr>"
  have "\<And>n. int (7 * n) = 7 * int n" by simp
  then have C7: "int (7 * ?C) = 7 * int ?C" .
  have small: "ordinal dt - ordinal dt mod 7 + (int (7 * ?C) - 1) \<le> MAXORDINAL"
    unfolding C7 using assms(3) by linarith
  have le: "ordinal dt - ordinal dt mod 7 \<le> MAXORDINAL"
    using small by simp
  have b: "compute_beginning dt = Inr ?b"
    using assms(2) le by (simp add: compute_beginning_ordinal)
  have pos: "0 < ordinal dt - ordinal dt mod 7" using assms(2) by presburger
  have e: "add_days ?b (int (7 * ?C) - 1) = Inr (?b\<lparr>ordinal := ordinal ?b + (int (7 * ?C) - 1)\<rparr>)"
    using small pos by (simp add: add_days_def Let_def)
  have "plan grid (Some dt) = Inr (map (day_date ?b) (on_days grid))"
    by (simp only: plan_def len option.case b sum.case e)
  then have "planned ws do_invert (Some dt) = Inr (map (day_date ?b) (on_days grid))"
    by (simp add: planned_def g)
  then show ?thesis using g b by blast
qed

lemma distinct_on_dates: "distinct (map (day_date b) (on_days grid))"
proof -
  have "inj_on (day_date b) (set (on_days grid))"
    by (rule inj_onI) (rule day_date_inj)
  moreover have "distinct (on_days grid)" by (simp add: on_days_def)
  ultimately show ?thesis by (simp add: distinct_map)
qed

lemma set_batches_subset: "set (batches a rng k ds) \<subseteq> set ds"
  by (induction ds arbitrary: k) auto

lemma set_batches:
  "\<forall>j. 1 \<le> num_commits a rng j \<Longrightarrow> set (batches a rng k ds) = set ds"
proof (induction ds arbitrary: k)
  case Nil
  then show ?case by simp
next
  case (Cons d ds)
  have "0 < nat (num_commits a rng k)" using Cons.prems [rule_format, of k] by simp
  then have "set (replicate (nat (num_commits a rng k)) d) = {d}" by simp
  then show ?case using Cons.IH [OF Cons.prems] by simp
qed

lemma count_list_replicate: "count_list (replicate n x) y = (if x = y then n else 0)"
  by (induction n) auto

lemma count_batches:
  assumes "distinct ds" "j < length ds"
  shows "count_list (batches a rng k ds) (ds ! j) = nat (num_commits a rng (k + j))"
  using assms
proof (induction ds arbitrary: k j)
  case Nil
  then show ?case by simp
next
  case (Cons d ds)
  from Cons.prems have notin: "d \<notin> set ds" and dist: "distinct ds" by simp_all
  show ?case
  proof (cases j)
    case 0
    have "d \<notin> set (batches a rng (Suc k) ds)"
      using notin set_batches_subset [of a rng "Suc k" ds] by blast
    then have "count_list (batches a rng (Suc k) ds) d = 0"
      by (simp add: count_list_0_iff)
    then show ?thesis using 0 by (simp add: count_list_replicate)
  next
    case (Suc i)
    with Cons.prems have i: "i < length ds" by simp
    then have "ds ! i \<noteq> d" using notin nth_mem by metis
    then show ?thesis
      using Suc Cons.IH [OF dist i, of "Suc k"] by (simp add: count_list_replicate)
  qed
qed

lemma num_commits_range:
  assumes "min_commits a \<le> max_commits a"
  shows "randrange rng k (max_commits a - min_commits a + 1)
           = Inr (num_commits a rng k - min_commits a)"
    and "min_commits a \<le> num_commits a rng k" and "num_commits a rng k \<le> max_commits a"
proof -
  let ?n = "max_commits a - min_commits a + 1"
  have n: "0 < ?n" using assms by simp
  show "randrange rng k ?n = Inr (num_commits a rng k - min_commits a)"
    using n by (simp add: randrange_def num_commits_def)
  have "0 \<le> int (rng k) mod ?n" using n by simp
  then show "min_commits a \<le> num_commits a rng k" by (simp add: num_commits_def)
  have "int (rng k) mod ?n < ?n" using n by (rule pos_mod_bound)
  then show "num_commits a rng k \<le> max_commits a" by (simp add: num_commits_def)
qed

lemma draw_bij:
  "bij_betw (\<lambda>r. lo + r) {0..<hi - lo + 1} {lo..hi :: int}"
  by (rule bij_betw_byWitness [where f' = "\<lambda>c. c - lo"]) auto

lemma upt_21:
  "[0..<21] = [0, 1, 2, 3, 4, 5, 6, 7, 8, 9, 10, 11, 12, 13, 14, 15, 16, 17, 18, 19, 20]"
  by (simp add: upt_rec)

lemma on_days_bang:
  "on_days [''...'', ''.#.'', ''.#.'', ''.#.'', ''...'', ''.#.'', ''...''] = [8, 9, 10, 12]"
  by (simp add: on_days_def upt_21 cell_on_def day_cell_def)

lemma beginning_tuesday: "compute_beginning tuesday_2023_01_03 = Inr sunday_2023_01_01"
  by (simp add: compute_beginning_ordinal tuesday_2023_01_03_def sunday_2023_01_01_def
        noon_def MAXORDINAL_def)

lemma planned_bang:
  "planned [[33]] False (Some tuesday_2023_01_03)
     = Inr (map (day_date sunday_2023_01_01) [8, 9, 10, 12])"
proof -
  have "add_days sunday_2023_01_01 20 = Inr (day_date sunday_2023_01_01 20)"
    by (simp add: add_days_def day_date_def sunday_2023_01_01_def MAXORDINAL_def)
  then show ?thesis
    by (simp add: planned_def grid_bang plan_def beginning_tuesday on_days_bang)
qed

lemma on_dates_bang:
  "on_dates [[33]] False (Some tuesday_2023_01_03) = map (day_date sunday_2023_01_01) [8, 9, 10, 12]"
  by (simp add: on_dates_def printable_bang planned_bang)


lemma set_created: "set (created a rng launch ds) \<subseteq> set ds"
proof -
  have "set (take n (batches a rng 0 ds)) \<subseteq> set ds" for n
    using set_take_subset [of n "batches a rng 0 ds"] set_batches_subset [of a rng 0 ds]
    by blast
  then show ?thesis by (simp add: created_def)
qed

text \<open>
  C5, as the code has it: in a run that is no dry run and reaches the loop, the days
  whose cell is on are served in order, and the \<open>k\<close>-th of them uses the \<open>k\<close>-th draw of
  the run: it asks for \<open>min_commits + randrange(max_commits - min_commits + 1)\<close> commits
  dated at that day.  That number lies between \<open>min_commits\<close> and \<open>max_commits\<close>
  inclusive, and each number of that range comes from exactly one of the equally likely
  results of \<open>randrange\<close>, so it is drawn uniformly.  When every call of \<open>git\<close> can be
  started, the run returns and every such day has got exactly the number drawn for it.
  The first call that cannot be started (no \<open>git\<close> on the search path) raises and ends the
  run: the commits made are those before that call, and the days after it get no draw.
  A run reaches the loop when its message is printable and not empty, its bounds are
  valid, and its start date is from 0001-01-07 on with the last day of the window no
  later than 9999-12-31.
\<close>

theorem commits_drawn_in_bounds:
  assumes "join [32] (message a) \<noteq> []" "printable_ascii (join [32] (message a))"
    and "0 \<le> min_commits a" "1 \<le> max_commits a" "min_commits a \<le> max_commits a"
    and "start a = Some dt" "7 \<le> ordinal dt"
      "ordinal dt - ordinal dt mod 7
         + 7 * int (sum_list (map glyph_columns (join [32] (message a)))
                     + length (join [32] (message a)) + 1) - 1
       \<le> MAXORDINAL"
    and "\<not> dry_run a"
  shows "(\<exists>evs ds. planned (message a) (invert a) (start a) = Inr ds
           \<and> main rng launch a
               = (evs, case launch_error launch 0 (length (batches a rng 0 ds)) of
                         None \<Rightarrow> Returned | Some e \<Rightarrow> Raised (OSError e))
           \<and> commit_dates evs
               = take (launched launch 0 (length (batches a rng 0 ds))) (batches a rng 0 ds))
       \<and> ((\<forall>c. launch c = None) \<longrightarrow>
            (\<exists>evs ds. main rng launch a = (evs, Returned)
               \<and> planned (message a) (invert a) (start a) = Inr ds
               \<and> commit_dates evs = batches a rng 0 ds
               \<and> (\<forall>k<length ds.
                     count_list (commit_dates evs) (ds ! k) = nat (num_commits a rng k)))
            \<and> (\<forall>k c d. commit_day a rng launch d k c
                  = (replicate (nat (num_commits a rng k)) (GitCommit d),
                     Inr (Suc k, c + nat (num_commits a rng k)))))
       \<and> (\<forall>k. randrange rng k (max_commits a - min_commits a + 1)
                  = Inr (num_commits a rng k - min_commits a)
              \<and> min_commits a \<le> num_commits a rng k
              \<and> num_commits a rng k \<le> max_commits a)
       \<and> bij_betw (\<lambda>r. min_commits a + r) {0..<max_commits a - min_commits a + 1}
            {min_commits a..max_commits a}"
proof -
  obtain grid b where p: "planned (message a) (invert a) (start a)
                            = Inr (map (day_date b) (on_days grid))"
    using planned_valid [OF assms(2) assms(7) assms(8), of "invert a"] assms(6) by auto
  let ?ds = "map (day_date b) (on_days grid)"
  obtain evs where m: "main rng launch a
                         = (evs, case stopped a rng launch ?ds of
                                   None \<Rightarrow> Returned | Some e \<Rightarrow> Raised (OSError e))"
    and cd: "commit_dates evs = created a rng launch ?ds"
    using main_valid [OF assms(1-5), of rng launch] by (auto simp add: p)
  have general: "\<exists>evs ds. planned (message a) (invert a) (start a) = Inr ds
           \<and> main rng launch a
               = (evs, case launch_error launch 0 (length (batches a rng 0 ds)) of
                         None \<Rightarrow> Returned | Some e \<Rightarrow> Raised (OSError e))
           \<and> commit_dates evs
               = take (launched launch 0 (length (batches a rng 0 ds))) (batches a rng 0 ds)"
    using p m cd assms(9) by (auto simp add: created_def stopped_def)
  have launching: "(\<forall>c. launch c = None) \<longrightarrow>
            (\<exists>evs ds. main rng launch a = (evs, Returned)
               \<and> planned (message a) (invert a) (start a) = Inr ds
               \<and> commit_dates evs = batches a rng 0 ds
               \<and> (\<forall>k<length ds.
                     count_list (commit_dates evs) (ds ! k) = nat (num_commits a rng k)))
            \<and> (\<forall>k c d. commit_day a rng launch d k c
                  = (replicate (nat (num_commits a rng k)) (GitCommit d),
                     Inr (Suc k, c + nat (num_commits a rng k))))"
  proof
    assume all: "\<forall>c. launch c = None"
    have m': "main rng launch a = (evs, Returned)"
      using m by (simp add: stopped_all [OF all])
    have cd': "commit_dates evs = batches a rng 0 ?ds"
      using cd assms(9) by (simp add: created_all [OF all])
    have counts: "\<forall>k<length ?ds.
        count_list (commit_dates evs) (?ds ! k) = nat (num_commits a rng k)"
      unfolding cd' using count_batches [OF distinct_on_dates, of _ b grid a rng 0] by simp
    have day: "\<forall>k c d. commit_day a rng launch d k c
                  = (replicate (nat (num_commits a rng k)) (GitCommit d),
                     Inr (Suc k, c + nat (num_commits a rng k)))"
      using assms(9)
      by (simp add: commit_day_valid [OF assms(5)] launched_all [OF all]
            launch_error_all [OF all])
    show "(\<exists>evs ds. main rng launch a = (evs, Returned)
               \<and> planned (message a) (invert a) (start a) = Inr ds
               \<and> commit_dates evs = batches a rng 0 ds
               \<and> (\<forall>k<length ds.
                     count_list (commit_dates evs) (ds ! k) = nat (num_commits a rng k)))
            \<and> (\<forall>k c d. commit_day a rng launch d k c
                  = (replicate (nat (num_commits a rng k)) (GitCommit d),
                     Inr (Suc k, c + nat (num_commits a rng k))))"
      using m' p cd' counts day by blast
  qed
  show ?thesis
    using general launching num_commits_range [OF assms(5)] draw_bij by blast
qed

theorem commits_drawn_in_bounds_witness:
  "join [32] (message args_bang) \<noteq> [] \<and> printable_ascii (join [32] (message args_bang))
   \<and> 0 \<le> min_commits args_bang \<and> 1 \<le> max_commits args_bang
   \<and> min_commits args_bang \<le> max_commits args_bang
   \<and> start args_bang = Some tuesday_2023_01_03 \<and> 7 \<le> ordinal tuesday_2023_01_03
   \<and> ordinal tuesday_2023_01_03 - ordinal tuesday_2023_01_03 mod 7
         + 7 * int (sum_list (map glyph_columns (join [32] (message args_bang)))
                     + length (join [32] (message args_bang)) + 1) - 1
       \<le> MAXORDINAL
   \<and> \<not> dry_run args_bang
   \<and> (\<forall>c. git_found c = None)
   \<and> snd (main id git_found args_bang) = Returned
   \<and> commit_dates (fst (main id git_found args_bang))
       = replicate 30 (day_date sunday_2023_01_01 8) @ replicate 31 (day_date sunday_2023_01_01 9)
         @ replicate 32 (day_date sunday_2023_01_01 10)
         @ replicate 33 (day_date sunday_2023_01_01 12)"
proof -
  have h: "join [32] (message args_bang) \<noteq> []" "printable_ascii (join [32] (message args_bang))"
    "0 \<le> min_commits args_bang" "1 \<le> max_commits args_bang"
    "min_commits args_bang \<le> max_commits args_bang"
    "start args_bang = Some tuesday_2023_01_03" "7 \<le> ordinal tuesday_2023_01_03"
    "ordinal tuesday_2023_01_03 - ordinal tuesday_2023_01_03 mod 7
         + 7 * int (sum_list (map glyph_columns (join [32] (message args_bang)))
                     + length (join [32] (message args_bang)) + 1) - 1
       \<le> MAXORDINAL"
    "\<not> dry_run args_bang"
    by (simp_all add: args_bang_def printable_bang tuesday_2023_01_03_def MAXORDINAL_def
          glyph_columns_bang)
  have g: "\<forall>c. git_found c = None" by (simp add: git_found_def)
  have p: "planned (message args_bang) (invert args_bang) (start args_bang)
             = Inr (map (day_date sunday_2023_01_01) [8, 9, 10, 12])"
    using planned_bang by (simp add: args_bang_def)
  obtain evs where m: "main id git_found args_bang = (evs, Returned)"
    and cd: "commit_dates evs
               = batches args_bang id 0 (map (day_date sunday_2023_01_01) [8, 9, 10, 12])"
    using commits_drawn_in_bounds [OF h, of id git_found] g unfolding p by auto
  have "batches args_bang id 0 (map (day_date sunday_2023_01_01) [8, 9, 10, 12])
       = replicate 30 (day_date sunday_2023_01_01 8) @ replicate 31 (day_date sunday_2023_01_01 9)
         @ replicate 32 (day_date sunday_2023_01_01 10)
         @ replicate 33 (day_date sunday_2023_01_01 12)"
    by (simp add: num_commits_def args_bang_def)
  then show ?thesis using h g m cd by simp
qed

theorem commits_without_git_counterexample:
  "join [32] (message args_bang_1_2) \<noteq> [] \<and> printable_ascii (join [32] (message args_bang_1_2))
   \<and> 0 \<le> min_commits args_bang_1_2 \<and> 1 \<le> max_commits args_bang_1_2
   \<and> min_commits args_bang_1_2 \<le> max_commits args_bang_1_2
   \<and> \<not> dry_run args_bang_1_2
   \<and> planned (message args_bang_1_2) (invert args_bang_1_2) (start args_bang_1_2)
       = Inr (map (day_date sunday_2023_01_01) [8, 9, 10, 12])
   \<and> snd (main id git_missing args_bang_1_2) = Raised (OSError FileNotFoundError)
   \<and> commit_dates (fst (main id git_missing args_bang_1_2)) = []"
proof -
  have h: "join [32] (message args_bang_1_2) \<noteq> []"
    "printable_ascii (join [32] (message args_bang_1_2))"
    "0 \<le> min_commits args_bang_1_2" "1 \<le> max_commits args_bang_1_2"
    "min_commits args_bang_1_2 \<le> max_commits args_bang_1_2"
    and wet: "\<not> dry_run args_bang_1_2"
    by (simp_all add: args_bang_1_2_def printable_bang)
  have p: "planned (message args_bang_1_2) (invert args_bang_1_2) (start args_bang_1_2)
             = Inr (map (day_date sunday_2023_01_01) [8, 9, 10, 12])"
    using planned_bang by (simp add: args_bang_1_2_def)
  have s: "stopped args_bang_1_2 id git_missing (map (day_date sunday_2023_01_01) [8, 9, 10, 12])
             = Some FileNotFoundError"
    by (simp add: stopped_missing num_commits_def args_bang_1_2_def)
  have "snd (main id git_missing args_bang_1_2) = Raised (OSError FileNotFoundError)
      \<and> commit_dates (fst (main id git_missing args_bang_1_2)) = []"
    using main_valid [OF h, of id git_missing] unfolding p
    by (auto simp add: s [simplified] created_missing)
  then show ?thesis using h wet p by simp
qed

section \<open>Index errors\<close>

lemma invalid_none_printable: "invalid_chars msg = [] \<Longrightarrow> printable_ascii msg"
  using not_printable_invalid [of msg] by blast

lemma add_days_Inl: "add_days dt k = Inl e \<Longrightarrow> e = OverflowError"
  by (auto simp add: add_days_def Let_def split: if_splits)

lemma plan_Inl: "plan grid st = Inl e \<Longrightarrow> e = ValueError \<or> e = OverflowError"
  by (auto simp add: plan_def compute_beginning_def Let_def
        split: option.splits sum.splits dest: add_days_Inl)

lemma main_rejected:
  assumes "join [32] (message a) = [] \<or> min_commits a < 0 \<or> max_commits a < 1
             \<or> min_commits a > max_commits a \<or> invalid_chars (join [32] (message a)) \<noteq> []"
  shows "snd (main rng launch a) = SysExit 1" and "commit_dates (fst (main rng launch a)) = []"
  using assms by (auto simp add: main_def Let_def)

lemma main_no_IndexError: "snd (main rng launch a) \<noteq> Raised IndexError"
proof (cases "join [32] (message a) = [] \<or> min_commits a < 0 \<or> max_commits a < 1
             \<or> min_commits a > max_commits a \<or> invalid_chars (join [32] (message a)) \<noteq> []")
  case True
  then show ?thesis using main_rejected(1) [OF True, of rng launch] by simp
next
  case False
  then have ok: "join [32] (message a) \<noteq> []" "printable_ascii (join [32] (message a))"
    "0 \<le> min_commits a" "1 \<le> max_commits a" "min_commits a \<le> max_commits a"
    using invalid_none_printable [of "join [32] (message a)"] by auto
  obtain grid where g: "build_grid get_font (join [32] (message a)) (invert a) = Inr grid"
    using build_grid_regular [OF ok(2)] by blast
  have p: "planned (message a) (invert a) (start a) = plan grid (start a)"
    by (simp add: planned_def g)
  show ?thesis
  proof (cases "plan grid (start a)")
    case (Inl e)
    then have "main rng launch a = ([], Raised e)"
      using main_valid [OF ok, of rng launch] by (simp add: p)
    then show ?thesis using plan_Inl [OF Inl] by auto
  next
    case (Inr ds)
    then have "\<exists>evs. main rng launch a
                   = (evs, case stopped a rng launch ds of
                             None \<Rightarrow> Returned | Some e \<Rightarrow> Raised (OSError e))"
      using main_valid [OF ok, of rng launch] by (auto simp add: p)
    then show ?thesis by (auto split: option.splits)
  qed
qed

text \<open>
  C9: the font table has exactly 95 entries; for every code point from 32 to 126 the
  index \<open>codepoint - 32\<close> is in bounds and every row index 0 to 6 of the glyph is in
  bounds; after validation the grid is built without an index error, and no run of
  \<open>main\<close> ever raises one.
\<close>

theorem font_lookup_in_bounds:
  "length get_font = 95
   \<and> (\<forall>c. 32 \<le> c \<and> c \<le> 126 \<longrightarrow>
         (\<exists>g. py_index get_font (int c - ASCII_PRINTABLE_FIRST) = Inr g \<and> length g = 7
            \<and> (\<forall>row<7. \<exists>r. py_index g (int row) = Inr r)))
   \<and> (\<forall>msg do_invert. invalid_chars msg = [] \<longrightarrow>
         (\<exists>grid. build_grid get_font msg do_invert = Inr grid))
   \<and> (\<forall>rng launch a. snd (main rng launch a) \<noteq> Raised IndexError)"
proof -
  have glyphs: "\<forall>c. 32 \<le> c \<and> c \<le> 126 \<longrightarrow>
         (\<exists>g. py_index get_font (int c - ASCII_PRINTABLE_FIRST) = Inr g \<and> length g = 7
            \<and> (\<forall>row<7. \<exists>r. py_index g (int row) = Inr r))"
  proof (intro allI impI)
    fix c :: nat assume "32 \<le> c \<and> c \<le> 126"
    then have c: "32 \<le> c" "c \<le> 126" by simp_all
    note g = glyph_lookup [OF c]
    have "length (get_font ! (c - 32)) = 7" using g(2) unfolding glyph_ok_def by blast
    moreover have "\<forall>row<7. \<exists>r. py_index (get_font ! (c - 32)) (int row) = Inr r"
      using glyph_row(1) [OF g(2)] by blast
    ultimately show "\<exists>g. py_index get_font (int c - ASCII_PRINTABLE_FIRST) = Inr g \<and> length g = 7
            \<and> (\<forall>row<7. \<exists>r. py_index g (int row) = Inr r)"
      using g(1) by blast
  qed
  have grids: "\<forall>msg do_invert. invalid_chars msg = [] \<longrightarrow>
         (\<exists>grid. build_grid get_font msg do_invert = Inr grid)"
    using build_grid_regular invalid_none_printable by blast
  show ?thesis using length_get_font glyphs grids main_no_IndexError by blast
qed

theorem font_lookup_in_bounds_witness:
  "(32 :: nat) \<le> 65 \<and> (65 :: nat) \<le> 126
   \<and> (\<exists>g. py_index get_font (int 65 - ASCII_PRINTABLE_FIRST) = Inr g \<and> length g = 7
          \<and> (\<forall>row<7. \<exists>r. py_index g (int row) = Inr r))
   \<and> invalid_chars [72, 105, 33] = []
   \<and> (\<exists>grid. build_grid get_font [72, 105, 33] False = Inr grid)"
proof -
  have v: "invalid_chars [72, 105, 33] = []"
    by (simp add: invalid_chars_def ASCII_PRINTABLE_FIRST_def ASCII_PRINTABLE_LAST_def)
  have c: "(32 :: nat) \<le> 65 \<and> (65 :: nat) \<le> 126" by simp
  from font_lookup_in_bounds have
    "\<exists>g. py_index get_font (int 65 - ASCII_PRINTABLE_FIRST) = Inr g \<and> length g = 7
          \<and> (\<forall>row<7. \<exists>r. py_index g (int row) = Inr r)"
    and "\<exists>grid. build_grid get_font [72, 105, 33] False = Inr grid"
    using v c by blast+
  then show ?thesis using v c by blast
qed

section \<open>The dates that receive commits\<close>

lemma main_commit_dates:
  assumes "0 \<le> min_commits a" "1 \<le> max_commits a" "min_commits a \<le> max_commits a"
  shows "commit_dates (fst (main rng launch a))
           = created a rng launch (on_dates (message a) (invert a) (start a))"
proof (cases "join [32] (message a) = [] \<or> \<not> printable_ascii (join [32] (message a))")
  case True
  then have "join [32] (message a) = [] \<or> invalid_chars (join [32] (message a)) \<noteq> []"
    using not_printable_invalid by blast
  then have "commit_dates (fst (main rng launch a)) = []"
    using main_rejected(2) [of a rng launch] by blast
  then show ?thesis using True by (simp add: on_dates_def created_def)
next
  case False
  then have ok: "join [32] (message a) \<noteq> []" "printable_ascii (join [32] (message a))"
    by simp_all
  show ?thesis
  proof (cases "planned (message a) (invert a) (start a)")
    case (Inl e)
    then have "main rng launch a = ([], Raised e)"
      using main_valid [OF ok assms, of rng launch] by simp
    then show ?thesis using Inl ok by (simp add: on_dates_def created_def)
  next
    case (Inr ds)
    then obtain evs where "fst (main rng launch a) = evs"
      and "commit_dates evs = created a rng launch ds"
      using main_valid [OF ok assms, of rng launch] by auto
    then show ?thesis using Inr ok by (simp add: on_dates_def)
  qed
qed

lemma main_commit_set:
  assumes "1 \<le> min_commits a" "min_commits a \<le> max_commits a" "\<not> dry_run a"
    "\<forall>c. launch c = None"
  shows "set (commit_dates (fst (main rng launch a)))
           = set (on_dates (message a) (invert a) (start a))"
proof -
  have "\<forall>j. 1 \<le> num_commits a rng j"
    using num_commits_range(2) [OF assms(2), of rng] assms(1) by (meson order_trans)
  then show ?thesis
    using main_commit_dates [of a rng launch] assms
    by (simp add: set_batches created_all [OF assms(4)])
qed

text \<open>
  C10, as the code has it: for any two runs with the same message, invert flag and start
  date, and with commit bounds that pass validation, the same days are classified on and
  get the same dates, whatever the bounds and the draws; bounds and draws only decide how
  many commits each of these dates is to receive.  The commits of a run are the commits
  of these dates in order, up to the first call of \<open>git\<close> that cannot be started; they
  never fall on another date, and they are all there when every call can be started.
  When neither run is a dry run, both have \<open>min_commits\<close> of at least 1 and in both every
  call of \<open>git\<close> can be started, the set of dates that receive commits is the same in both
  runs: the dates of the days that are on.  (With \<open>min_commits = 0\<close> a day that is on may
  draw zero commits.)
\<close>

theorem commit_dates_determined:
  assumes "message a1 = message a2" "invert a1 = invert a2" "start a1 = start a2"
    and "0 \<le> min_commits a1" "1 \<le> max_commits a1" "min_commits a1 \<le> max_commits a1"
    and "0 \<le> min_commits a2" "1 \<le> max_commits a2" "min_commits a2 \<le> max_commits a2"
  shows "commit_dates (fst (main rng1 launch1 a1))
           = created a1 rng1 launch1 (on_dates (message a1) (invert a1) (start a1))
       \<and> commit_dates (fst (main rng2 launch2 a2))
           = created a2 rng2 launch2 (on_dates (message a1) (invert a1) (start a1))
       \<and> set (commit_dates (fst (main rng1 launch1 a1)))
           \<subseteq> set (on_dates (message a1) (invert a1) (start a1))
       \<and> set (commit_dates (fst (main rng2 launch2 a2)))
           \<subseteq> set (on_dates (message a1) (invert a1) (start a1))
       \<and> ((\<forall>c. launch1 c = None) \<longrightarrow>
            commit_dates (fst (main rng1 launch1 a1))
              = (if dry_run a1 then []
                 else batches a1 rng1 0 (on_dates (message a1) (invert a1) (start a1))))
       \<and> ((\<forall>c. launch2 c = None) \<longrightarrow>
            commit_dates (fst (main rng2 launch2 a2))
              = (if dry_run a2 then []
                 else batches a2 rng2 0 (on_dates (message a1) (invert a1) (start a1))))
       \<and> (\<not> dry_run a1 \<and> 1 \<le> min_commits a1 \<and> (\<forall>c. launch1 c = None)
            \<and> \<not> dry_run a2 \<and> 1 \<le> min_commits a2 \<and> (\<forall>c. launch2 c = None) \<longrightarrow>
            set (commit_dates (fst (main rng1 launch1 a1)))
              = set (on_dates (message a1) (invert a1) (start a1))
            \<and> set (commit_dates (fst (main rng2 launch2 a2)))
              = set (commit_dates (fst (main rng1 launch1 a1))))"
proof -
  let ?ds = "on_dates (message a1) (invert a1) (start a1)"
  have one: "commit_dates (fst (main rng1 launch1 a1)) = created a1 rng1 launch1 ?ds"
    by (rule main_commit_dates [OF assms(4-6)])
  have two: "commit_dates (fst (main rng2 launch2 a2)) = created a2 rng2 launch2 ?ds"
    using main_commit_dates [OF assms(7-9), of rng2 launch2] by (simp add: assms(1-3))
  have sub1: "set (commit_dates (fst (main rng1 launch1 a1))) \<subseteq> set ?ds"
    unfolding one by (rule set_created)
  have sub2: "set (commit_dates (fst (main rng2 launch2 a2))) \<subseteq> set ?ds"
    unfolding two by (rule set_created)
  have all1: "(\<forall>c. launch1 c = None) \<longrightarrow>
            commit_dates (fst (main rng1 launch1 a1))
              = (if dry_run a1 then [] else batches a1 rng1 0 ?ds)"
    unfolding one by (simp add: created_all)
  have all2: "(\<forall>c. launch2 c = None) \<longrightarrow>
            commit_dates (fst (main rng2 launch2 a2))
              = (if dry_run a2 then [] else batches a2 rng2 0 ?ds)"
    unfolding two by (simp add: created_all)
  have sets: "\<not> dry_run a1 \<and> 1 \<le> min_commits a1 \<and> (\<forall>c. launch1 c = None)
            \<and> \<not> dry_run a2 \<and> 1 \<le> min_commits a2 \<and> (\<forall>c. launch2 c = None) \<longrightarrow>
            set (commit_dates (fst (main rng1 launch1 a1))) = set ?ds
            \<and> set (commit_dates (fst (main rng2 launch2 a2)))
              = set (commit_dates (fst (main rng1 launch1 a1)))"
    using main_commit_set [OF _ assms(6), where rng = rng1 and launch = launch1]
      main_commit_set [OF _ assms(9), where rng = rng2 and launch = launch2]
    by (simp add: assms(1-3))
  show ?thesis using one two sub1 sub2 all1 all2 sets by blast
qed

theorem commit_dates_determined_witness:
  "message args_bang = message args_bang_1_2 \<and> invert args_bang = invert args_bang_1_2
   \<and> start args_bang = start args_bang_1_2
   \<and> 0 \<le> min_commits args_bang \<and> 1 \<le> max_commits args_bang
   \<and> min_commits args_bang \<le> max_commits args_bang
   \<and> 0 \<le> min_commits args_bang_1_2 \<and> 1 \<le> max_commits args_bang_1_2
   \<and> min_commits args_bang_1_2 \<le> max_commits args_bang_1_2
   \<and> \<not> dry_run args_bang \<and> 1 \<le> min_commits args_bang
   \<and> \<not> dry_run args_bang_1_2 \<and> 1 \<le> min_commits args_bang_1_2
   \<and> (\<forall>c. git_found c = None)
   \<and> set (commit_dates (fst (main id git_found args_bang)))
       = set (map (day_date sunday_2023_01_01) [8, 9, 10, 12])
   \<and> set (commit_dates (fst (main Suc git_found args_bang_1_2)))
       = set (commit_dates (fst (main id git_found args_bang)))"
proof -
  have h: "message args_bang = message args_bang_1_2" "invert args_bang = invert args_bang_1_2"
    "start args_bang = start args_bang_1_2"
    "0 \<le> min_commits args_bang" "1 \<le> max_commits args_bang"
    "min_commits args_bang \<le> max_commits args_bang"
    "0 \<le> min_commits args_bang_1_2" "1 \<le> max_commits args_bang_1_2"
    "min_commits args_bang_1_2 \<le> max_commits args_bang_1_2"
    and g: "\<not> dry_run args_bang \<and> 1 \<le> min_commits args_bang
      \<and> \<not> dry_run args_bang_1_2 \<and> 1 \<le> min_commits args_bang_1_2"
    by (simp_all add: args_bang_def args_bang_1_2_def)
  have f: "\<forall>c. git_found c = None" by (simp add: git_found_def)
  have d: "on_dates (message args_bang) (invert args_bang) (start args_bang)
             = map (day_date sunday_2023_01_01) [8, 9, 10, 12]"
    using on_dates_bang by (simp add: args_bang_def)
  have "set (commit_dates (fst (main id git_found args_bang)))
       = set (map (day_date sunday_2023_01_01) [8, 9, 10, 12])
   \<and> set (commit_dates (fst (main Suc git_found args_bang_1_2)))
       = set (commit_dates (fst (main id git_found args_bang)))"
    using commit_dates_determined [OF h, of id git_found Suc git_found] g f unfolding d by blast
  then show ?thesis using h g f by blast
qed

theorem commit_dates_determined_counterexample:
  "commit_dates (fst (main id git_found args_bang_0_1))
     = [day_date sunday_2023_01_01 9, day_date sunday_2023_01_01 12]
   \<and> commit_dates (fst (main Suc git_found args_bang_0_1))
     = [day_date sunday_2023_01_01 8, day_date sunday_2023_01_01 10]
   \<and> set (commit_dates (fst (main id git_found args_bang_0_1)))
     \<noteq> set (commit_dates (fst (main Suc git_found args_bang_0_1)))"
proof -
  have b: "0 \<le> min_commits args_bang_0_1" "1 \<le> max_commits args_bang_0_1"
    "min_commits args_bang_0_1 \<le> max_commits args_bang_0_1"
    by (simp_all add: args_bang_0_1_def)
  have f: "\<forall>c. git_found c = None" by (simp add: git_found_def)
  have d: "on_dates (message args_bang_0_1) (invert args_bang_0_1) (start args_bang_0_1)
             = map (day_date sunday_2023_01_01) [8, 9, 10, 12]"
    using on_dates_bang by (simp add: args_bang_0_1_def)
  have one: "commit_dates (fst (main id git_found args_bang_0_1))
     = [day_date sunday_2023_01_01 9, day_date sunday_2023_01_01 12]"
    unfolding main_commit_dates [OF b] d created_all [OF f]
    by (simp add: num_commits_def args_bang_0_1_def)
  have two: "commit_dates (fst (main Suc git_found args_bang_0_1))
     = [day_date sunday_2023_01_01 8, day_date sunday_2023_01_01 10]"
    unfolding main_commit_dates [OF b] d created_all [OF f]
    by (simp add: num_commits_def args_bang_0_1_def)
  have "day_date sunday_2023_01_01 9 \<noteq> day_date sunday_2023_01_01 8"
    "day_date sunday_2023_01_01 9 \<noteq> day_date sunday_2023_01_01 10"
    using day_date_inj by fastforce+
  then show ?thesis unfolding one two by auto
qed

end
